theory Spec2Isabelle
  imports Main
begin

section \<open>jedi/api/environment.py: values\<close>

text \<open>
  The module raises one exception class of its own, \<open>InvalidPythonEnvironment\<close>.
  \<open>ValueError\<close> (from \<open>Popen\<close> and from \<open>int\<close>) and \<open>TypeError\<close> (from calling the
  namedtuple with the wrong number of arguments) are the built-in exceptions the body of
  \<open>_get_version\<close> could raise besides; the module catches neither.
\<close>

datatype error = InvalidPythonEnvironment | ValueError | TypeError

text \<open>\<open>_VersionInfo = namedtuple('VersionInfo', 'major minor micro')\<close>\<close>

datatype VersionInfo = VersionInfo (major: int) (minor: int) (micro: int)

text \<open>\<open>_SUPPORTED_PYTHONS = ['2.7', '3.3', '3.4', '3.5', '3.6']\<close>\<close>

definition SUPPORTED_PYTHONS :: "string list" where
  "SUPPORTED_PYTHONS = [''2.7'', ''3.3'', ''3.4'', ''3.5'', ''3.6'']"

section \<open>Library functions the module calls\<close>

subsection \<open>Bytes and integers\<close>

text \<open>A byte is a \<open>char\<close>; the class \<open>\d\<close> of a bytes pattern is the ASCII digits 0-9.\<close>

definition is_digit :: "char \<Rightarrow> bool" where
  "is_digit c = (48 \<le> (of_char c :: nat) \<and> (of_char c :: nat) \<le> 57)"

definition digit_val :: "char \<Rightarrow> int" where
  "digit_val c = int (of_char c) - 48"

text \<open>
  \<open>int(m)\<close> on a bytes object. The module calls it on the captures of \<open>\d+\<close> only, where
  it reads a decimal numeral (leading zeros allowed); every other argument is modelled as
  the \<open>ValueError\<close> branch. An interpreter with a limit on integer string conversion
  (\<open>sys.get_int_max_str_digits()\<close>, 4300 by default) raises \<open>ValueError\<close> for a numeral
  with more digits than the limit, leading zeros counted; the limit is never applied to
  640 digits or fewer, and 0 switches it off (0 also stands for an interpreter that has
  no such limit).
\<close>

definition decimal :: "string \<Rightarrow> int" where
  "decimal s = foldl (\<lambda>a c. 10 * a + digit_val c) 0 s"

definition exceeds_int_limit :: "nat \<Rightarrow> string \<Rightarrow> bool" where
  "exceeds_int_limit max_str_digits s =
     (640 < length s \<and> 0 < max_str_digits \<and> max_str_digits < length s)"

definition py_int :: "nat \<Rightarrow> string \<Rightarrow> error + int" where
  "py_int max_str_digits s =
     (if s \<noteq> [] \<and> list_all is_digit s \<and> \<not> exceeds_int_limit max_str_digits s
      then Inr (decimal s)
      else Inl ValueError)"

text \<open>A list comprehension whose element expression may raise: the first error wins.\<close>

fun map_result :: "('a \<Rightarrow> error + 'b) \<Rightarrow> 'a list \<Rightarrow> error + 'b list" where
  "map_result f [] = Inr []"
| "map_result f (x # xs) =
     (case f x of
        Inl e \<Rightarrow> Inl e
      | Inr y \<Rightarrow> (case map_result f xs of Inl e \<Rightarrow> Inl e | Inr ys \<Rightarrow> Inr (y # ys)))"

text \<open>\<open>_VersionInfo(*args)\<close>: the namedtuple takes exactly three positional arguments.\<close>

fun VersionInfo_star :: "int list \<Rightarrow> error + VersionInfo" where
  "VersionInfo_star [a, b, c] = Inr (VersionInfo a b c)"
| "VersionInfo_star _ = Inl TypeError"

text \<open>\<open>'%s' % n\<close> for an integer \<open>n\<close>: its decimal numeral.\<close>

fun str_nat :: "nat \<Rightarrow> string" where
  "str_nat n =
     (if n < 10 then [char_of (48 + n)]
      else str_nat (n div 10) @ [char_of (48 + n mod 10)])"

declare str_nat.simps [simp del]

definition str_int :: "int \<Rightarrow> string" where
  "str_int i = (if i < 0 then ''-'' @ str_nat (nat (- i)) else str_nat (nat i))"

subsection \<open>Regular expressions: \<open>re.match\<close> with greedy repetition and backtracking\<close>

text \<open>
  The one pattern of the module, \<open>br'Python (\d+)\.(\d+)\.(\d+)'\<close>, is a sequence of
  literal byte strings and capturing groups \<open>(\d+)\<close>. \<open>match_items\<close> lists every way
  the sequence matches at the start of the subject, in the order in which a backtracking
  matcher tries them (a greedy \<open>\d+\<close> tries its longest run first); \<open>re.match\<close> returns
  the groups of the first one, and \<open>None\<close> when there is none. The match is anchored at
  the start and need not reach the end of the subject.
\<close>

datatype regex_item = Literal string | DigitsGroup

fun digit_runs :: "string \<Rightarrow> (string \<times> string) list" where
  "digit_runs [] = []"
| "digit_runs (c # cs) =
     (if is_digit c then map (\<lambda>(m, r). (c # m, r)) (digit_runs cs) @ [([c], cs)] else [])"

fun match_items :: "regex_item list \<Rightarrow> string \<Rightarrow> (string list \<times> string) list" where
  "match_items [] s = [([], s)]"
| "match_items (Literal l # ps) s =
     (if take (length l) s = l then match_items ps (drop (length l) s) else [])"
| "match_items (DigitsGroup # ps) s =
     concat (map (\<lambda>(m, r). map (\<lambda>(gs, r'). (m # gs, r')) (match_items ps r)) (digit_runs s))"

definition re_match :: "regex_item list \<Rightarrow> string \<Rightarrow> string list option" where
  "re_match p s = (case match_items p s of [] \<Rightarrow> None | (gs, _) # _ \<Rightarrow> Some gs)"

definition VERSION_RE :: "regex_item list" where
  "VERSION_RE =
     [Literal ''Python '', DigitsGroup, Literal ''.'', DigitsGroup, Literal ''.'', DigitsGroup]"

text \<open>
  A reading of the same pattern without backtracking, for comparison with the matcher
  above: each \<open>\d+\<close> takes the longest run of digits, each literal must follow.
\<close>

definition take_literal :: "string \<Rightarrow> string \<Rightarrow> string option" where
  "take_literal l s = (if take (length l) s = l then Some (drop (length l) s) else None)"

definition take_digits :: "string \<Rightarrow> (string \<times> string) option" where
  "take_digits s =
     (if takeWhile is_digit s = [] then None
      else Some (takeWhile is_digit s, dropWhile is_digit s))"

definition scan_version :: "string \<Rightarrow> string list option" where
  "scan_version s =
     (case take_literal ''Python '' s of None \<Rightarrow> None | Some s1 \<Rightarrow>
     (case take_digits s1 of None \<Rightarrow> None | Some (a, r1) \<Rightarrow>
     (case take_literal ''.'' r1 of None \<Rightarrow> None | Some s2 \<Rightarrow>
     (case take_digits s2 of None \<Rightarrow> None | Some (b, r2) \<Rightarrow>
     (case take_literal ''.'' r2 of None \<Rightarrow> None | Some s3 \<Rightarrow>
     (case take_digits s3 of None \<Rightarrow> None | Some (c, r3) \<Rightarrow> Some [a, b, c]))))))"

text \<open>A non-empty string of digits, and the line a runtime prints for a version.\<close>

definition digits :: "string \<Rightarrow> bool" where
  "digits s = (s \<noteq> [] \<and> list_all is_digit s)"

definition version_line :: "nat \<Rightarrow> nat \<Rightarrow> nat \<Rightarrow> string" where
  "version_line a b c = ''Python '' @ str_nat a @ ''.'' @ str_nat b @ ''.'' @ str_nat c"

subsection \<open>\<open>os.path\<close> (posixpath)\<close>

text \<open>
  \<open>os.path.join(a, b)\<close>: an absolute \<open>b\<close> replaces \<open>a\<close>; otherwise the two are joined by
  one separator, which is left out when \<open>a\<close> is empty or already ends with one.
\<close>

definition path_join :: "string \<Rightarrow> string \<Rightarrow> string" where
  "path_join a b =
     (if take 1 b = ''/'' then b
      else if a = [] \<or> last a = CHR ''/'' then a @ b
      else a @ ''/'' @ b)"

text \<open>
  \<open>os.path.dirname(p)\<close>: everything up to and including the last separator, then
  stripped of trailing separators unless it consists of separators only.
\<close>

definition dirname :: "string \<Rightarrow> string" where
  "dirname p =
     (let head = rev (dropWhile (\<lambda>c. c \<noteq> CHR ''/'') (rev p)) in
      if head \<noteq> [] \<and> \<not> list_all (\<lambda>c. c = CHR ''/'') head
      then rev (dropWhile (\<lambda>c. c = CHR ''/'') (rev head))
      else head)"

section \<open>The host and the world\<close>

text \<open>
  What the module reads from its surroundings is a parameter: the outcome of running a
  command line (\<open>Popen\<close>, \<open>communicate\<close>, \<open>poll\<close>), \<open>os.path.exists\<close>,
  \<open>distutils.spawn.find_executable\<close>, and the \<open>sys\<close> attributes of the running
  interpreter, its limit on integer string conversion among them. The host is fixed
  while the functions below run: files and executables do not change under them.

  Running a command line has three outcomes: \<open>Popen\<close> raises an \<open>OSError\<close> (the file
  is missing or cannot be executed), \<open>Popen\<close> raises a \<open>ValueError\<close> (an argument has
  an embedded null byte or, with the subclass \<open>UnicodeEncodeError\<close>, cannot be encoded
  for the file system), or the process runs and exits with a return code, having written
  to its two streams.
\<close>

datatype proc_outcome =
    OSError
  | PopenValueError
  | Exited int string string

record host =
  run_process :: "string list \<Rightarrow> proc_outcome"
  path_exists :: "string \<Rightarrow> bool"
  find_executable :: "string \<Rightarrow> string option"
  sys_prefix :: string
  sys_executable :: string
  sys_version_info :: VersionInfo
  sys_path :: "string list"
  int_max_str_digits :: nat
  subprocess_sys_path :: "string \<Rightarrow> string list"

text \<open>
  \<open>Popen(args, stdout=PIPE, stderr=PIPE)\<close>, \<open>communicate()\<close> and \<open>poll()\<close>. An
  argument with an embedded null byte makes \<open>Popen\<close> raise \<open>ValueError\<close> before anything
  is started; otherwise the host decides.
\<close>

definition has_nul :: "string \<Rightarrow> bool" where
  "has_nul s = (CHR 0x00 \<in> set s)"

definition Popen_outcome :: "host \<Rightarrow> string list \<Rightarrow> proc_outcome" where
  "Popen_outcome h args = (if list_ex has_nul args then PopenValueError else run_process h args)"

text \<open>
  Modelled from the spec: \<open>jedi.evaluate.compiled.subprocess\<close> (\<open>get_subprocess\<close>,
  \<open>EvaluatorSubprocess\<close>, \<open>EvaluatorSameProcess\<close>) is imported by the module and is not
  part of the sources. The spec describes a worker process bound to one executable, which
  reports that executable's search path on request, and two adapters behind one contract.
  The worker is a handle naming its executable; its answer to the search-path request is
  the host's \<open>subprocess_sys_path\<close>.
\<close>

datatype compiled_subprocess = CompiledSubprocess string

definition get_subprocess :: "string \<Rightarrow> compiled_subprocess" where
  "get_subprocess executable = CompiledSubprocess executable"

datatype 'e evaluator_channel =
    EvaluatorSubprocess 'e compiled_subprocess
  | EvaluatorSameProcess 'e

text \<open>
  The two classes of the module. An \<open>Environment\<close> holds \<open>_base_path\<close>, \<open>_executable\<close>
  and \<open>version_info\<close>, which \<open>__init__\<close> assigns, and the cell of its memoized
  \<open>get_sys_path\<close>.

  Modelled from the spec: \<open>jedi.cache.memoize_method\<close> is imported by the module and is
  not part of the sources. The spec describes a per-instance cell that goes from unset to
  set once and is read afterwards; \<open>sys_path_memo\<close> is that cell.
\<close>

datatype pyobject =
    Environment (obj_base_path: string) (obj_executable: string) (version_info: VersionInfo)
      (sys_path_memo: "string list option")
  | InterpreterEnvironment (version_info: VersionInfo)

text \<open>
  Instrumentation: every call of \<open>Popen\<close> and every search-path request sent to a worker
  is recorded, in order.
\<close>

datatype event = Popen "string list" | SysPathQuery string

text \<open>
  Objects have identity: the heap lists the objects created so far, and a reference is
  an index into it. A constructor call appends a new object and returns its index.
\<close>

type_synonym oref = nat

record world =
  spawned :: "event list"
  heap :: "pyobject list"

definition empty_world :: world where
  "empty_world = \<lparr>spawned = [], heap = []\<rparr>"

definition deref :: "world \<Rightarrow> oref \<Rightarrow> pyobject option" where
  "deref w r = (if r < length (heap w) then Some (heap w ! r) else None)"

definition alloc :: "world \<Rightarrow> pyobject \<Rightarrow> oref \<times> world" where
  "alloc w obj = (length (heap w), w\<lparr>heap := heap w @ [obj]\<rparr>)"

section \<open>The module\<close>

text \<open>
  \<open>_get_version(executable)\<close>. \<open>Popen\<close> is called once; an \<open>OSError\<close> from it and a
  non-zero return code both become \<open>InvalidPythonEnvironment\<close>, as does an output that
  the pattern does not match. \<open>except OSError\<close> catches that class and no other: a
  \<open>ValueError\<close> from \<open>Popen\<close> leaves the function as it is, and so does one from
  \<open>int\<close>, which is called outside the \<open>try\<close>. (Isabelle names cannot start with an
  underscore: the module's \<open>_get_version\<close> and \<open>_get_executable_path\<close> lose theirs.)
\<close>

definition get_version :: "host \<Rightarrow> world \<Rightarrow> string \<Rightarrow> (error + VersionInfo) \<times> world" where
  "get_version h w executable =
     (let w1 = w\<lparr>spawned := spawned w @ [Popen [executable, ''--version'']]\<rparr> in
      case Popen_outcome h [executable, ''--version''] of
        OSError \<Rightarrow> (Inl InvalidPythonEnvironment, w1)
      | PopenValueError \<Rightarrow> (Inl ValueError, w1)
      | Exited retcode stdout stderr \<Rightarrow>
          if retcode \<noteq> 0 then (Inl InvalidPythonEnvironment, w1)
          else
            (let output = stdout @ stderr in
             case re_match VERSION_RE output of
               None \<Rightarrow> (Inl InvalidPythonEnvironment, w1)
             | Some groups \<Rightarrow>
                 (case map_result (py_int (int_max_str_digits h)) groups of
                    Inl e \<Rightarrow> (Inl e, w1)
                  | Inr ns \<Rightarrow> (VersionInfo_star ns, w1))))"

text \<open>
  \<open>Environment(path, executable)\<close>: \<open>__init__\<close> stores the two arguments and then calls
  \<open>_get_version\<close>. When that raises, the constructor call raises and the caller gets no
  reference to the half-initialised object, which is dropped; the model therefore adds
  the object to the heap once \<open>__init__\<close> has returned.
\<close>

definition new_Environment :: "host \<Rightarrow> world \<Rightarrow> string \<Rightarrow> string \<Rightarrow> (error + oref) \<times> world" where
  "new_Environment h w path exe =
     (case get_version h w exe of
        (Inl e, w1) \<Rightarrow> (Inl e, w1)
      | (Inr v, w1) \<Rightarrow>
          (case alloc w1 (Environment path exe v None) of (r, w2) \<Rightarrow> (Inr r, w2)))"

text \<open>\<open>InterpreterEnvironment()\<close>: \<open>version_info = _VersionInfo(*sys.version_info[:3])\<close>.\<close>

definition new_InterpreterEnvironment :: "host \<Rightarrow> world \<Rightarrow> oref \<times> world" where
  "new_InterpreterEnvironment h w = alloc w (InterpreterEnvironment (sys_version_info h))"

text \<open>Reading the attribute \<open>version_info\<close> of an object.\<close>

definition read_version_info :: "world \<Rightarrow> oref \<Rightarrow> VersionInfo option" where
  "read_version_info w r = map_option version_info (deref w r)"

text \<open>
  \<open>get_evaluator_subprocess(evaluator)\<close>, dispatched on the class of \<open>self\<close>:
  \<open>Environment\<close> returns \<open>EvaluatorSubprocess(evaluator, self._get_subprocess())\<close>,
  \<open>InterpreterEnvironment\<close> returns \<open>EvaluatorSameProcess(evaluator)\<close>.
\<close>

fun get_evaluator_subprocess :: "pyobject \<Rightarrow> 'e \<Rightarrow> 'e evaluator_channel" where
  "get_evaluator_subprocess (Environment path exe v memo) evaluator =
     EvaluatorSubprocess evaluator (get_subprocess exe)"
| "get_evaluator_subprocess (InterpreterEnvironment v) evaluator =
     EvaluatorSameProcess evaluator"

text \<open>
  \<open>get_sys_path()\<close>. On an \<open>Environment\<close> it is memoized: a set cell is returned as it
  is; an unset one is filled with \<open>self._get_subprocess().get_sys_path()\<close>, one request
  to the worker. On an \<open>InterpreterEnvironment\<close> it returns \<open>sys.path\<close>. The result is
  \<open>None\<close> for a reference to no object, which no caller can hold.
\<close>

definition get_sys_path :: "host \<Rightarrow> world \<Rightarrow> oref \<Rightarrow> (string list \<times> world) option" where
  "get_sys_path h w r =
     (case deref w r of
        None \<Rightarrow> None
      | Some (InterpreterEnvironment v) \<Rightarrow> Some (sys_path h, w)
      | Some (Environment path exe v (Some cached)) \<Rightarrow> Some (cached, w)
      | Some (Environment path exe v None) \<Rightarrow>
          (let result = subprocess_sys_path h exe in
           Some (result,
             w\<lparr>spawned := spawned w @ [SysPathQuery exe],
               heap := (heap w)[r := Environment path exe v (Some result)]\<rparr>)))"

text \<open>\<open>get_default_environment()\<close>\<close>

definition get_default_environment :: "host \<Rightarrow> world \<Rightarrow> (error + oref) \<times> world" where
  "get_default_environment h w = new_Environment h w (sys_prefix h) (sys_executable h)"

text \<open>\<open>_get_executable_path(path)\<close>\<close>

definition get_executable_path :: "host \<Rightarrow> string \<Rightarrow> error + string" where
  "get_executable_path h path =
     (let bin_folder = path_join path ''bin'';
          activate = path_join bin_folder ''activate'';
          python = path_join bin_folder ''python''
      in if \<not> list_all (path_exists h) [activate, python]
         then Inl InvalidPythonEnvironment
         else Inr python)"

text \<open>\<open>create_environment(path)\<close>\<close>

definition create_environment :: "host \<Rightarrow> world \<Rightarrow> string \<Rightarrow> (error + oref) \<times> world" where
  "create_environment h w path =
     (case get_executable_path h path of
        Inl e \<Rightarrow> (Inl e, w)
      | Inr exe \<Rightarrow> new_Environment h w path exe)"

text \<open>\<open>get_python_environment(python_name)\<close>\<close>

definition get_python_environment :: "host \<Rightarrow> world \<Rightarrow> string \<Rightarrow> (error + oref) \<times> world" where
  "get_python_environment h w python_name =
     (case find_executable h python_name of
        None \<Rightarrow> (Inl InvalidPythonEnvironment, w)
      | Some exe \<Rightarrow> new_Environment h w (dirname (dirname exe)) exe)"

text \<open>
  The two generators, run to their end by a consumer. The result is the list of
  references yielded, in order, and the exception that ended the iteration, if one did;
  \<open>except InvalidPythonEnvironment: pass\<close> catches that class and no other, and in
  \<open>find_python_environments\<close> the call for the host's own tag is outside the \<open>try\<close>.
\<close>

definition yield :: "oref \<Rightarrow> (oref list \<times> error option) \<times> world \<Rightarrow> (oref list \<times> error option) \<times> world" where
  "yield env rest = (case rest of ((envs, err), w) \<Rightarrow> ((env # envs, err), w))"

fun find_virtualenvs_loop :: "host \<Rightarrow> world \<Rightarrow> string list \<Rightarrow> (oref list \<times> error option) \<times> world" where
  "find_virtualenvs_loop h w [] = (([], None), w)"
| "find_virtualenvs_loop h w (path # paths) =
     (case get_executable_path h path of
        Inl e \<Rightarrow>
          if e = InvalidPythonEnvironment then find_virtualenvs_loop h w paths
          else (([], Some e), w)
      | Inr exe \<Rightarrow>
          (case new_Environment h w path exe of
             (Inl e, w1) \<Rightarrow>
               if e = InvalidPythonEnvironment then find_virtualenvs_loop h w1 paths
               else (([], Some e), w1)
           | (Inr env, w1) \<Rightarrow> yield env (find_virtualenvs_loop h w1 paths)))"

definition find_virtualenvs :: "host \<Rightarrow> world \<Rightarrow> string list option \<Rightarrow> (oref list \<times> error option) \<times> world" where
  "find_virtualenvs h w paths =
     find_virtualenvs_loop h w (case paths of None \<Rightarrow> [] | Some ps \<Rightarrow> ps)"

fun find_python_environments_loop ::
  "host \<Rightarrow> world \<Rightarrow> string \<Rightarrow> string list \<Rightarrow> (oref list \<times> error option) \<times> world" where
  "find_python_environments_loop h w current_version [] = (([], None), w)"
| "find_python_environments_loop h w current_version (version_string # rest) =
     (if version_string = current_version then
        (case get_default_environment h w of
           (Inl e, w1) \<Rightarrow> (([], Some e), w1)
         | (Inr env, w1) \<Rightarrow>
             yield env (find_python_environments_loop h w1 current_version rest))
      else
        (case get_python_environment h w (''python'' @ version_string) of
           (Inl e, w1) \<Rightarrow>
             if e = InvalidPythonEnvironment
             then find_python_environments_loop h w1 current_version rest
             else (([], Some e), w1)
         | (Inr env, w1) \<Rightarrow>
             yield env (find_python_environments_loop h w1 current_version rest)))"

definition find_python_environments :: "host \<Rightarrow> world \<Rightarrow> (oref list \<times> error option) \<times> world" where
  "find_python_environments h w =
     (let current_version =
            str_int (major (sys_version_info h)) @ ''.'' @ str_int (minor (sys_version_info h))
      in find_python_environments_loop h w current_version SUPPORTED_PYTHONS)"


section \<open>Notions the properties are stated with\<close>

text \<open>
  The pattern \<open><Name> <major>.<minor>.<micro>\<close> anchored at the start of the output: the
  output begins with \<open>Python\<close>, a space, and three non-empty digit strings separated by
  dots.
\<close>

definition version_pattern_matches :: "string \<Rightarrow> bool" where
  "version_pattern_matches s =
     (\<exists>a b c rest. s = ''Python '' @ a @ ''.'' @ b @ ''.'' @ c @ rest \<and>
        digits a \<and> digits b \<and> digits c)"

text \<open>
  The three groups of a match: the digit strings \<open>a\<close>, \<open>b\<close>, \<open>c\<close> in their places,
  the last one as long as it can be.
\<close>

definition version_groups :: "string \<Rightarrow> string \<Rightarrow> string \<Rightarrow> string \<Rightarrow> bool" where
  "version_groups s a b c =
     (\<exists>rest. s = ''Python '' @ a @ ''.'' @ b @ ''.'' @ c @ rest \<and>
        digits a \<and> digits b \<and> digits c \<and> (rest = [] \<or> \<not> is_digit (hd rest)))"

text \<open>What a probe of an executable returns; the world it runs in plays no part.\<close>

definition probe_result :: "host \<Rightarrow> string \<Rightarrow> error + VersionInfo" where
  "probe_result h exe = fst (get_version h empty_world exe)"

text \<open>The world after one probe of an executable.\<close>

definition log_probe :: "world \<Rightarrow> string \<Rightarrow> world" where
  "log_probe w exe = w\<lparr>spawned := spawned w @ [Popen [exe, ''--version'']]\<rparr>"

text \<open>The two files \<open>_get_executable_path\<close> looks for under a directory.\<close>

definition activate_path :: "string \<Rightarrow> string" where
  "activate_path path = path_join (path_join path ''bin'') ''activate''"

definition python_path :: "string \<Rightarrow> string" where
  "python_path path = path_join (path_join path ''bin'') ''python''"

text \<open>
  A scan goes through a list of candidates until the first one, if any, at which an
  exception that nobody catches is raised. \<open>f\<close> gives that exception for a candidate:
  \<open>first_error\<close> is the exception that ends the scan, \<open>before_error\<close> the candidates
  gone through before it, \<open>through_error\<close> those and the candidate that raised.
\<close>

definition first_error :: "('a \<Rightarrow> error option) \<Rightarrow> 'a list \<Rightarrow> error option" where
  "first_error f xs = (case List.map_filter f xs of [] \<Rightarrow> None | e # es \<Rightarrow> Some e)"

definition before_error :: "('a \<Rightarrow> error option) \<Rightarrow> 'a list \<Rightarrow> 'a list" where
  "before_error f xs = takeWhile (\<lambda>x. f x = None) xs"

definition through_error :: "('a \<Rightarrow> error option) \<Rightarrow> 'a list \<Rightarrow> 'a list" where
  "through_error f xs = before_error f xs @ take 1 (dropWhile (\<lambda>x. f x = None) xs)"

text \<open>
  The object a valid candidate directory stands for: both files exist and the probe of
  the interpreter returns a version. An invalid candidate stands for none. The exception
  a candidate ends \<open>find_virtualenvs\<close> with: what the probe of its interpreter raises, if
  that is not \<open>InvalidPythonEnvironment\<close>.
\<close>

definition virtualenv_error :: "host \<Rightarrow> string \<Rightarrow> error option" where
  "virtualenv_error h path =
     (if path_exists h (activate_path path) \<and> path_exists h (python_path path)
      then (case probe_result h (python_path path) of
              Inl e \<Rightarrow> if e = InvalidPythonEnvironment then None else Some e
            | Inr v \<Rightarrow> None)
      else None)"

definition virtualenv_at :: "host \<Rightarrow> string \<Rightarrow> pyobject option" where
  "virtualenv_at h path =
     (if path_exists h (activate_path path) \<and> path_exists h (python_path path)
      then (case probe_result h (python_path path) of
              Inl e \<Rightarrow> None
            | Inr v \<Rightarrow> Some (Environment path (python_path path) v None))
      else None)"

text \<open>The probes a scan of candidate directories runs: one per directory with both files.\<close>

definition virtualenv_probes :: "host \<Rightarrow> string list \<Rightarrow> event list" where
  "virtualenv_probes h paths =
     map (\<lambda>path. Popen [python_path path, ''--version''])
       (filter (\<lambda>path. path_exists h (activate_path path) \<and> path_exists h (python_path path))
          paths)"

text \<open>
  The tag of the running interpreter, the object the default environment is when its
  probe succeeds, the object an executable name resolves to, and what a version tag
  stands for in \<open>find_python_environments\<close>, with the probes it costs. The exception
  a tag ends the iteration with: for the host's own tag whatever the probe of
  \<open>sys.executable\<close> raises, for another tag what the probe of the executable found
  raises, if that is not \<open>InvalidPythonEnvironment\<close>.
\<close>

definition current_version :: "host \<Rightarrow> string" where
  "current_version h =
     str_int (major (sys_version_info h)) @ ''.'' @ str_int (minor (sys_version_info h))"

definition default_environment_object :: "host \<Rightarrow> pyobject option" where
  "default_environment_object h =
     (case probe_result h (sys_executable h) of
        Inl e \<Rightarrow> None
      | Inr v \<Rightarrow> Some (Environment (sys_prefix h) (sys_executable h) v None))"

definition python_environment_object :: "host \<Rightarrow> string \<Rightarrow> pyobject option" where
  "python_environment_object h python_name =
     (case find_executable h python_name of
        None \<Rightarrow> None
      | Some exe \<Rightarrow>
          (case probe_result h exe of
             Inl e \<Rightarrow> None
           | Inr v \<Rightarrow> Some (Environment (dirname (dirname exe)) exe v None)))"

definition environment_for_tag :: "host \<Rightarrow> string \<Rightarrow> pyobject option" where
  "environment_for_tag h tag =
     (if tag = current_version h then default_environment_object h
      else python_environment_object h (''python'' @ tag))"

definition tag_error :: "host \<Rightarrow> string \<Rightarrow> error option" where
  "tag_error h tag =
     (if tag = current_version h
      then (case probe_result h (sys_executable h) of Inl e \<Rightarrow> Some e | Inr v \<Rightarrow> None)
      else (case find_executable h (''python'' @ tag) of
              None \<Rightarrow> None
            | Some exe \<Rightarrow>
                (case probe_result h exe of
                   Inl e \<Rightarrow> if e = InvalidPythonEnvironment then None else Some e
                 | Inr v \<Rightarrow> None)))"

definition probes_for_tag :: "host \<Rightarrow> string \<Rightarrow> event list" where
  "probes_for_tag h tag =
     (if tag = current_version h then [Popen [sys_executable h, ''--version'']]
      else (case find_executable h (''python'' @ tag) of
              None \<Rightarrow> []
            | Some exe \<Rightarrow> [Popen [exe, ''--version'']]))"

text \<open>
  An object that is an \<open>Environment\<close> whose \<open>version_info\<close> is what the probe of its
  executable returns; and a reference to such an object.
\<close>

fun probed_object :: "host \<Rightarrow> pyobject \<Rightarrow> bool" where
  "probed_object h (Environment path exe v memo) =
     (probe_result h exe = Inr v \<and> 0 \<le> major v \<and> 0 \<le> minor v \<and> 0 \<le> micro v)"
| "probed_object h (InterpreterEnvironment v) = False"

definition holds_probed_version :: "host \<Rightarrow> world \<Rightarrow> oref \<Rightarrow> bool" where
  "holds_probed_version h w r =
     (case deref w r of None \<Rightarrow> False | Some obj \<Rightarrow> probed_object h obj)"

text \<open>
  A caller's accesses to one object, in order: reading \<open>version_info\<close> and calling
  \<open>get_sys_path()\<close>, with what each access returns.
\<close>

datatype access = ReadVersion | GetSysPath

datatype observed = Version VersionInfo | SysPath "string list"

fun run_accesses :: "host \<Rightarrow> world \<Rightarrow> oref \<Rightarrow> access list \<Rightarrow> (observed list \<times> world) option" where
  "run_accesses h w r [] = Some ([], w)"
| "run_accesses h w r (ReadVersion # rest) =
     (case read_version_info w r of
        None \<Rightarrow> None
      | Some v \<Rightarrow>
          (case run_accesses h w r rest of
             None \<Rightarrow> None
           | Some (obs, w') \<Rightarrow> Some (Version v # obs, w')))"
| "run_accesses h w r (GetSysPath # rest) =
     (case get_sys_path h w r of
        None \<Rightarrow> None
      | Some (p, w1) \<Rightarrow>
          (case run_accesses h w1 r rest of
             None \<Rightarrow> None
           | Some (obs, w') \<Rightarrow> Some (SysPath p # obs, w')))"

text \<open>What a sequence of accesses returns when the version is \<open>v\<close> and the path \<open>p\<close>.\<close>

fun observe :: "VersionInfo \<Rightarrow> string list \<Rightarrow> access \<Rightarrow> observed" where
  "observe v p ReadVersion = Version v"
| "observe v p GetSysPath = SysPath p"

text \<open>
  The outcome of a constructing function called in world \<open>w\<close>: either it raised
  \<open>InvalidPythonEnvironment\<close> or \<open>ValueError\<close> and the heap is as it was, or it returned
  a reference to the one new object, which holds the version its probe returned. And the
  outcome of a discovery function: the references it yielded are the new objects, each
  holding the version its probe returned.
\<close>

definition constructs_probed :: "host \<Rightarrow> world \<Rightarrow> (error + oref) \<times> world \<Rightarrow> bool" where
  "constructs_probed h w result =
     (case result of
        (Inl e, w') \<Rightarrow>
          (e = InvalidPythonEnvironment \<or> e = ValueError) \<and> heap w' = heap w
      | (Inr r, w') \<Rightarrow>
          r = length (heap w) \<and> length (heap w') = Suc (length (heap w)) \<and>
          take (length (heap w)) (heap w') = heap w \<and> holds_probed_version h w' r)"

definition yields_probed :: "host \<Rightarrow> world \<Rightarrow> (oref list \<times> error option) \<times> world \<Rightarrow> bool" where
  "yields_probed h w result =
     (case result of
        ((refs, err), w') \<Rightarrow>
          refs = [length (heap w) ..< length (heap w')] \<and>
          take (length (heap w)) (heap w') = heap w \<and>
          list_all (holds_probed_version h w') refs)"

section \<open>A host for examples\<close>

text \<open>
  One machine: the running interpreter is \<open>/usr/bin/python3.6\<close> (3.6.5, which prints
  its version on stdout); \<open>python2.7\<close> is on the search path and prints its version on
  stderr; \<open>/venv\<close> is a virtualenv whose interpreter prints \<open>Python 3.6.5\<close> on stderr;
  \<open>/broken\<close> has both files but its interpreter exits with code 1; \<open>/odd\<close> has both
  files and an interpreter that prints something else; \<open>/half\<close> has an activation script
  and no interpreter, \<open>/bare\<close> an interpreter and no activation script;
  \<open>/noisy/bin/python\<close> prints \<open>Python 3.6.5\<close> without a newline on stdout and
  \<open>7 warnings\<close> on stderr; \<open>/huge\<close> has both files and an interpreter that prints a
  major version of 4301 digits. The limit on integer string conversion is the default.
\<close>

definition demo_run_process :: "string list \<Rightarrow> proc_outcome" where
  "demo_run_process argv =
     (if argv = [''/usr/bin/python3.6'', ''--version'']
        then Exited 0 (''Python 3.6.5'' @ [CHR 0x0A]) []
      else if argv = [''/usr/bin/python2.7'', ''--version'']
        then Exited 0 [] (''Python 2.7.14'' @ [CHR 0x0A])
      else if argv = [''/venv/bin/python'', ''--version'']
        then Exited 0 [] (''Python 3.6.5'' @ [CHR 0x0A])
      else if argv = [''/broken/bin/python'', ''--version'']
        then Exited 1 [] ''cannot start''
      else if argv = [''/odd/bin/python'', ''--version'']
        then Exited 0 ''Jython 2.7'' []
      else if argv = [''/noisy/bin/python'', ''--version'']
        then Exited 0 ''Python 3.6.5'' ''7 warnings''
      else if argv = [''/huge/bin/python'', ''--version'']
        then Exited 0 (''Python '' @ replicate 4301 CHR ''1'' @ ''.0.0'') []
      else OSError)"

definition demo_host :: host where
  "demo_host =
     \<lparr>run_process = demo_run_process,
      path_exists = (\<lambda>p. p \<in> set
        [''/venv/bin/activate'', ''/venv/bin/python'',
         ''/broken/bin/activate'', ''/broken/bin/python'',
         ''/odd/bin/activate'', ''/odd/bin/python'',
         ''/half/bin/activate'', ''/bare/bin/python'',
         ''/huge/bin/activate'', ''/huge/bin/python'']),
      find_executable = (\<lambda>name.
        if name = ''python2.7'' then Some ''/usr/bin/python2.7''
        else if name = ''python3.6'' then Some ''/usr/bin/python3.6''
        else None),
      sys_prefix = ''/usr'',
      sys_executable = ''/usr/bin/python3.6'',
      sys_version_info = VersionInfo 3 6 5,
      sys_path = [''/usr/lib/python3.6''],
      int_max_str_digits = 4300,
      subprocess_sys_path = (\<lambda>exe. [exe @ ''/../lib''])\<rparr>"

section \<open>The matcher on the version pattern\<close>

lemma digit_runs_sound:
  "(m, r) \<in> set (digit_runs s) \<Longrightarrow> m @ r = s \<and> m \<noteq> [] \<and> list_all is_digit m"
  by (induction s arbitrary: m r) (auto split: if_splits)

lemma digit_runs_Nil_iff: "digit_runs s = [] \<longleftrightarrow> takeWhile is_digit s = []"
  by (cases s) auto

lemma digit_runs_hd:
  "takeWhile is_digit s \<noteq> [] \<Longrightarrow> hd (digit_runs s) = (takeWhile is_digit s, dropWhile is_digit s)"
proof (induction s)
  case Nil
  then show ?case by simp
next
  case (Cons c cs)
  then have c: "is_digit c" by (auto split: if_splits)
  show ?case
  proof (cases "takeWhile is_digit cs = []")
    case True
    then have "digit_runs cs = []" by (simp add: digit_runs_Nil_iff)
    moreover from True have "dropWhile is_digit cs = cs"
      by (cases cs) (auto split: if_splits)
    ultimately show ?thesis using c True by simp
  next
    case False
    then have ne: "digit_runs cs \<noteq> []" by (simp add: digit_runs_Nil_iff)
    with Cons.IH False c show ?thesis by (simp add: hd_append hd_map)
  qed
qed

lemma digit_runs_tl:
  "(m, r) \<in> set (tl (digit_runs s)) \<Longrightarrow> r \<noteq> [] \<and> is_digit (hd r)"
proof (induction s arbitrary: m r)
  case Nil
  then show ?case by simp
next
  case (Cons c cs)
  show ?case
  proof (cases "is_digit c")
    case False
    with Cons.prems show ?thesis by simp
  next
    case c: True
    show ?thesis
    proof (cases "digit_runs cs = []")
      case True
      with Cons.prems c show ?thesis by simp
    next
      case False
      then have cs: "cs \<noteq> [] \<and> is_digit (hd cs)"
        by (cases cs) (auto split: if_splits)
      from False c have "tl (digit_runs (c # cs)) =
          map (\<lambda>(m, r). (c # m, r)) (tl (digit_runs cs)) @ [([c], cs)]"
        by (simp add: map_tl)
      with Cons.prems have "(m, r) \<in> set (map (\<lambda>(m, r). (c # m, r)) (tl (digit_runs cs))) \<or> (m, r) = ([c], cs)"
        by auto
      then show ?thesis
      proof
        assume "(m, r) \<in> set (map (\<lambda>(m, r). (c # m, r)) (tl (digit_runs cs)))"
        then obtain m' where "(m', r) \<in> set (tl (digit_runs cs))" by auto
        then show ?thesis by (rule Cons.IH)
      next
        assume "(m, r) = ([c], cs)"
        with cs show ?thesis by simp
      qed
    qed
  qed
qed

lemma concat_map_Nil: "(\<And>x. x \<in> set xs \<Longrightarrow> f x = []) \<Longrightarrow> concat (map f xs) = []"
  by (induction xs) auto

lemma match_digits_then_literal:
  assumes "\<not> is_digit c"
  shows "match_items (DigitsGroup # Literal (c # l) # ps) s =
     (if takeWhile is_digit s = [] then []
      else map (\<lambda>(gs, r'). (takeWhile is_digit s # gs, r'))
             (match_items (Literal (c # l) # ps) (dropWhile is_digit s)))"
proof (cases "takeWhile is_digit s = []")
  case True
  then have "digit_runs s = []" by (simp add: digit_runs_Nil_iff)
  with True show ?thesis by simp
next
  case False
  let ?F = "\<lambda>(m, r). map (\<lambda>(gs, r'). (m # gs, r')) (match_items (Literal (c # l) # ps) r)"
  from False have ne: "digit_runs s \<noteq> []" by (simp add: digit_runs_Nil_iff)
  then have split: "digit_runs s = hd (digit_runs s) # tl (digit_runs s)" by simp
  have "concat (map ?F (tl (digit_runs s))) = []"
  proof (rule concat_map_Nil)
    fix x assume x: "x \<in> set (tl (digit_runs s))"
    obtain m r where mr: "x = (m, r)" by (cases x)
    with x have "r \<noteq> [] \<and> is_digit (hd r)" using digit_runs_tl by blast
    with assms have "take (length (c # l)) r \<noteq> c # l" by (cases r) auto
    with mr show "?F x = []" by simp
  qed
  moreover have "match_items (DigitsGroup # Literal (c # l) # ps) s =
      ?F (hd (digit_runs s)) @ concat (map ?F (tl (digit_runs s)))"
  proof -
    have "match_items (DigitsGroup # Literal (c # l) # ps) s = concat (map ?F (digit_runs s))"
      by (rule match_items.simps(3))
    also have "\<dots> = concat (map ?F (hd (digit_runs s) # tl (digit_runs s)))"
      by (simp only: list.collapse [OF ne])
    also have "\<dots> = ?F (hd (digit_runs s)) @ concat (map ?F (tl (digit_runs s)))"
      by (simp only: list.map concat.simps)
    finally show ?thesis .
  qed
  ultimately show ?thesis using False by (simp add: digit_runs_hd)
qed

lemma match_literal:
  "match_items (Literal l # ps) s =
     (case take_literal l s of None \<Rightarrow> [] | Some s' \<Rightarrow> match_items ps s')"
  by (simp add: take_literal_def)

lemma match_digits_dot:
  "match_items (DigitsGroup # Literal ''.'' # ps) s =
     (case take_digits s of None \<Rightarrow> []
      | Some (a, r) \<Rightarrow> map (\<lambda>(gs, r'). (a # gs, r')) (match_items (Literal ''.'' # ps) r))"
proof -
  have "\<not> is_digit CHR ''.''" by (simp add: is_digit_def)
  then have "match_items (DigitsGroup # Literal (CHR ''.'' # []) # ps) s =
     (if takeWhile is_digit s = [] then []
      else map (\<lambda>(gs, r'). (takeWhile is_digit s # gs, r'))
             (match_items (Literal (CHR ''.'' # []) # ps) (dropWhile is_digit s)))"
    by (rule match_digits_then_literal)
  then show ?thesis
    by (simp add: take_digits_def del: match_items.simps)
qed

lemma match_digits_last:
  "match_items [DigitsGroup] s =
     (case take_digits s of None \<Rightarrow> []
      | Some (a, r) \<Rightarrow> ([a], r) # map (\<lambda>(m, r'). ([m], r')) (tl (digit_runs s)))"
proof (cases "takeWhile is_digit s = []")
  case True
  then have "digit_runs s = []" by (simp add: digit_runs_Nil_iff)
  with True show ?thesis by (simp add: take_digits_def)
next
  case False
  then have ne: "digit_runs s \<noteq> []" by (simp add: digit_runs_Nil_iff)
  have "match_items [DigitsGroup] s = map (\<lambda>(m, r'). ([m], r')) (digit_runs s)"
    by (simp add: case_prod_unfold)
  also have "\<dots> = map (\<lambda>(m, r'). ([m], r')) (hd (digit_runs s) # tl (digit_runs s))"
    by (simp only: list.collapse [OF ne])
  finally show ?thesis using False by (simp add: take_digits_def digit_runs_hd)
qed

lemma re_match_VERSION_RE: "re_match VERSION_RE s = scan_version s"
  unfolding re_match_def VERSION_RE_def scan_version_def
  by (simp only: match_literal match_digits_dot match_digits_last)
     (simp split: option.splits prod.splits list.splits)

lemma take_digits_maximal:
  assumes "digits a" and "r = [] \<or> \<not> is_digit (hd r)"
  shows "take_digits (a @ r) = Some (a, r)"
proof -
  from assms(1) have all: "\<forall>x\<in>set a. is_digit x" and ne: "a \<noteq> []"
    by (simp_all add: digits_def list_all_iff)
  from assms(2) have "takeWhile is_digit r = []" and "dropWhile is_digit r = r"
    by (cases r; simp)+
  with all ne show ?thesis
    by (simp add: take_digits_def)
qed

lemma take_digits_prefix:
  assumes "digits a"
  shows "\<exists>a' r'. take_digits (a @ r) = Some (a', r')"
proof -
  from assms have "\<forall>x\<in>set a. is_digit x" and "a \<noteq> []"
    by (simp_all add: digits_def list_all_iff)
  then show ?thesis by (simp add: take_digits_def)
qed

lemma take_digits_SomeD:
  assumes "take_digits s = Some (a, r)"
  shows "s = a @ r \<and> digits a \<and> (r = [] \<or> \<not> is_digit (hd r))"
proof -
  from assms have a: "a = takeWhile is_digit s" and r: "r = dropWhile is_digit s"
    and ne: "a \<noteq> []"
    by (auto simp: take_digits_def split: if_splits)
  have "list_all is_digit a" unfolding a list_all_iff by (auto dest: set_takeWhileD)
  moreover have "r = [] \<or> \<not> is_digit (hd r)" unfolding r by (metis hd_dropWhile)
  ultimately show ?thesis using a r ne by (simp add: digits_def)
qed

lemma take_literal_append: "take_literal l (l @ s) = Some s"
  by (simp add: take_literal_def)

lemma take_literal_SomeD: "take_literal l s = Some s' \<Longrightarrow> s = l @ s'"
  by (auto simp: take_literal_def split: if_splits) (metis append_take_drop_id)

lemma not_digit_dot: "\<not> is_digit CHR ''.''"
  by (simp add: is_digit_def)

lemma scan_version_decomposed:
  assumes "digits a" "digits b" "digits c" "rest = [] \<or> \<not> is_digit (hd rest)"
  shows "scan_version (''Python '' @ a @ ''.'' @ b @ ''.'' @ c @ rest) = Some [a, b, c]"
proof -
  have 1: "take_literal ''Python '' (''Python '' @ a @ ''.'' @ b @ ''.'' @ c @ rest)
      = Some (a @ ''.'' @ b @ ''.'' @ c @ rest)"
    by (rule take_literal_append)
  have 2: "take_digits (a @ ''.'' @ b @ ''.'' @ c @ rest) = Some (a, ''.'' @ b @ ''.'' @ c @ rest)"
    using assms(1) by (rule take_digits_maximal) (simp add: not_digit_dot)
  have 3: "take_literal ''.'' (''.'' @ b @ ''.'' @ c @ rest) = Some (b @ ''.'' @ c @ rest)"
    by (rule take_literal_append)
  have 4: "take_digits (b @ ''.'' @ c @ rest) = Some (b, ''.'' @ c @ rest)"
    using assms(2) by (rule take_digits_maximal) (simp add: not_digit_dot)
  have 5: "take_literal ''.'' (''.'' @ c @ rest) = Some (c @ rest)"
    by (rule take_literal_append)
  have 6: "take_digits (c @ rest) = Some (c, rest)"
    using assms(3,4) by (rule take_digits_maximal)
  show ?thesis unfolding scan_version_def by (simp only: 1 2 3 4 5 6 option.case prod.case)
qed

lemma scan_version_SomeD:
  assumes "scan_version s = Some gs"
  shows "\<exists>a b c rest. s = ''Python '' @ a @ ''.'' @ b @ ''.'' @ c @ rest \<and> digits a \<and> digits b
           \<and> digits c \<and> (rest = [] \<or> \<not> is_digit (hd rest)) \<and> gs = [a, b, c]"
proof -
  from assms obtain s1 a r1 s2 b r2 s3 c r3 where
    1: "take_literal ''Python '' s = Some s1" and 2: "take_digits s1 = Some (a, r1)" and
    3: "take_literal ''.'' r1 = Some s2" and 4: "take_digits s2 = Some (b, r2)" and
    5: "take_literal ''.'' r2 = Some s3" and 6: "take_digits s3 = Some (c, r3)" and
    gs: "gs = [a, b, c]"
    unfolding scan_version_def by (auto split: option.splits prod.splits)
  have "s = ''Python '' @ a @ ''.'' @ b @ ''.'' @ c @ r3"
    using take_literal_SomeD [OF 1] take_digits_SomeD [OF 2] take_literal_SomeD [OF 3]
      take_digits_SomeD [OF 4] take_literal_SomeD [OF 5] take_digits_SomeD [OF 6]
    by simp
  with take_digits_SomeD [OF 2] take_digits_SomeD [OF 4] take_digits_SomeD [OF 6] gs
  show ?thesis by blast
qed

lemma scan_version_matches:
  assumes "digits a" "digits b" "digits c"
  shows "\<exists>gs. scan_version (''Python '' @ a @ ''.'' @ b @ ''.'' @ c @ rest) = Some gs"
proof -
  have 1: "take_literal ''Python '' (''Python '' @ a @ ''.'' @ b @ ''.'' @ c @ rest)
      = Some (a @ ''.'' @ b @ ''.'' @ c @ rest)"
    by (rule take_literal_append)
  have 2: "take_digits (a @ ''.'' @ b @ ''.'' @ c @ rest) = Some (a, ''.'' @ b @ ''.'' @ c @ rest)"
    using assms(1) by (rule take_digits_maximal) (simp add: not_digit_dot)
  have 3: "take_literal ''.'' (''.'' @ b @ ''.'' @ c @ rest) = Some (b @ ''.'' @ c @ rest)"
    by (rule take_literal_append)
  have 4: "take_digits (b @ ''.'' @ c @ rest) = Some (b, ''.'' @ c @ rest)"
    using assms(2) by (rule take_digits_maximal) (simp add: not_digit_dot)
  have 5: "take_literal ''.'' (''.'' @ c @ rest) = Some (c @ rest)"
    by (rule take_literal_append)
  from take_digits_prefix [OF assms(3)] obtain c' r' where
    6: "take_digits (c @ rest) = Some (c', r')" by blast
  show ?thesis unfolding scan_version_def by (simp only: 1 2 3 4 5 6 option.case prod.case) simp
qed

section \<open>Numerals\<close>

lemma is_digit_char_of: "d < 10 \<Longrightarrow> is_digit (char_of (48 + d :: nat))"
  by (simp add: is_digit_def)

lemma digit_val_char_of: "d < 10 \<Longrightarrow> digit_val (char_of (48 + d :: nat)) = int d"
  by (simp add: digit_val_def)

lemma digits_str_nat: "digits (str_nat n)"
proof (induction n rule: str_nat.induct)
  case (1 n)
  show ?case
  proof (cases "n < 10")
    case True
    then show ?thesis by (subst str_nat.simps) (simp add: digits_def is_digit_char_of)
  next
    case False
    with 1 have "digits (str_nat (n div 10))" by simp
    moreover have "is_digit (char_of (48 + n mod 10))" by (rule is_digit_char_of) simp
    ultimately show ?thesis using False
      by (subst str_nat.simps) (simp add: digits_def)
  qed
qed

lemma decimal_snoc: "decimal (s @ [c]) = 10 * decimal s + digit_val c"
  by (simp add: decimal_def)

lemma decimal_str_nat: "decimal (str_nat n) = int n"
proof (induction n rule: str_nat.induct)
  case (1 n)
  show ?case
  proof (cases "n < 10")
    case True
    then show ?thesis
      by (subst str_nat.simps) (simp add: decimal_def digit_val_char_of)
  next
    case False
    with 1 have "decimal (str_nat (n div 10)) = int (n div 10)" by simp
    moreover have "digit_val (char_of (48 + n mod 10)) = int (n mod 10)"
      by (rule digit_val_char_of) simp
    ultimately have "decimal (str_nat n) = 10 * int (n div 10) + int (n mod 10)"
      using False by (subst str_nat.simps) (simp add: decimal_snoc)
    then show ?thesis by (simp add: zdiv_int zmod_int)
  qed
qed

lemma py_int_digits:
  "digits s \<Longrightarrow> \<not> exceeds_int_limit n s \<Longrightarrow> py_int n s = Inr (decimal s)"
  by (simp add: py_int_def digits_def)

lemma py_int_exceeds: "exceeds_int_limit n s \<Longrightarrow> py_int n s = Inl ValueError"
  by (simp add: py_int_def)

lemma py_int_cases:
  "digits s \<Longrightarrow>
   py_int n s = (if exceeds_int_limit n s then Inl ValueError else Inr (decimal s))"
  by (simp add: py_int_def digits_def)

lemma decimal_nonneg_aux:
  "list_all is_digit s \<Longrightarrow> 0 \<le> a \<Longrightarrow> 0 \<le> foldl (\<lambda>a c. 10 * a + digit_val c) a s"
  by (induction s arbitrary: a) (auto simp: is_digit_def digit_val_def)

lemma decimal_nonneg: "digits s \<Longrightarrow> 0 \<le> decimal s"
  by (simp add: decimal_def digits_def decimal_nonneg_aux)

text \<open>What \<open>_VersionInfo(*[int(m) for m in match.groups()])\<close> gives for three digit groups.\<close>

lemma groups_to_version:
  assumes "digits a" "digits b" "digits c"
  shows "(case map_result (py_int n) [a, b, c] of Inl e \<Rightarrow> Inl e | Inr ns \<Rightarrow> VersionInfo_star ns)
    = (if exceeds_int_limit n a \<or> exceeds_int_limit n b \<or> exceeds_int_limit n c
       then Inl ValueError
       else Inr (VersionInfo (decimal a) (decimal b) (decimal c)))"
  using assms by (simp add: py_int_cases)

section \<open>The result of a probe\<close>

lemma Popen_outcome_version:
  "Popen_outcome h [exe, ''--version'']
     = (if has_nul exe then PopenValueError else run_process h [exe, ''--version''])"
  by (simp add: Popen_outcome_def has_nul_def)

lemma get_version_world: "snd (get_version h w exe) = log_probe w exe"
  by (simp add: get_version_def log_probe_def Let_def
      split: proc_outcome.splits option.splits sum.splits)

lemma get_version_OSError:
  "Popen_outcome h [exe, ''--version''] = OSError \<Longrightarrow>
   fst (get_version h w exe) = Inl InvalidPythonEnvironment"
  by (simp add: get_version_def)

lemma get_version_PopenValueError:
  "Popen_outcome h [exe, ''--version''] = PopenValueError \<Longrightarrow>
   fst (get_version h w exe) = Inl ValueError"
  by (simp add: get_version_def)

lemma get_version_nonzero:
  "Popen_outcome h [exe, ''--version''] = Exited rc out err \<Longrightarrow> rc \<noteq> 0 \<Longrightarrow>
   fst (get_version h w exe) = Inl InvalidPythonEnvironment"
  by (simp add: get_version_def)

lemma get_version_no_match:
  "Popen_outcome h [exe, ''--version''] = Exited 0 out err \<Longrightarrow> scan_version (out @ err) = None \<Longrightarrow>
   fst (get_version h w exe) = Inl InvalidPythonEnvironment"
  by (simp add: get_version_def re_match_VERSION_RE)

lemma get_version_match:
  assumes "Popen_outcome h [exe, ''--version''] = Exited 0 out err"
    and "scan_version (out @ err) = Some gs"
  shows "\<exists>a b c. gs = [a, b, c] \<and> digits a \<and> digits b \<and> digits c \<and>
           fst (get_version h w exe) =
             (if exceeds_int_limit (int_max_str_digits h) a
                 \<or> exceeds_int_limit (int_max_str_digits h) b
                 \<or> exceeds_int_limit (int_max_str_digits h) c
              then Inl ValueError
              else Inr (VersionInfo (decimal a) (decimal b) (decimal c)))"
proof -
  from scan_version_SomeD [OF assms(2)] obtain a b c where
    gs: "gs = [a, b, c]" and d: "digits a" "digits b" "digits c" by blast
  have "get_version h w exe =
      (case map_result (py_int (int_max_str_digits h)) [a, b, c] of
         Inl e \<Rightarrow> (Inl e, log_probe w exe)
       | Inr ns \<Rightarrow> (VersionInfo_star ns, log_probe w exe))"
    using assms gs
    by (simp add: get_version_def re_match_VERSION_RE log_probe_def Let_def
        del: map_result.simps split: sum.splits)
  then have "fst (get_version h w exe) =
      (case map_result (py_int (int_max_str_digits h)) [a, b, c] of
         Inl e \<Rightarrow> Inl e | Inr ns \<Rightarrow> VersionInfo_star ns)"
    by (simp split: sum.splits)
  with groups_to_version [OF d] gs d show ?thesis by (intro exI conjI) simp_all
qed

lemma get_version_fst: "fst (get_version h w exe) = probe_result h exe"
  by (simp add: probe_result_def get_version_def Let_def
      split: proc_outcome.splits option.splits sum.splits)

lemma version_pattern_matches_iff: "version_pattern_matches s \<longleftrightarrow> scan_version s \<noteq> None"
proof
  assume "version_pattern_matches s"
  then obtain a b c rest where
    "s = ''Python '' @ a @ ''.'' @ b @ ''.'' @ c @ rest" "digits a" "digits b" "digits c"
    unfolding version_pattern_matches_def by blast
  with scan_version_matches [of a b c rest] show "scan_version s \<noteq> None" by auto
next
  assume "scan_version s \<noteq> None"
  then obtain gs where "scan_version s = Some gs" by auto
  from scan_version_SomeD [OF this] show "version_pattern_matches s"
    unfolding version_pattern_matches_def by blast
qed

lemma version_groups_iff: "version_groups s a b c \<longleftrightarrow> scan_version s = Some [a, b, c]"
proof
  assume "version_groups s a b c"
  then obtain rest where "s = ''Python '' @ a @ ''.'' @ b @ ''.'' @ c @ rest"
    "digits a" "digits b" "digits c" "rest = [] \<or> \<not> is_digit (hd rest)"
    unfolding version_groups_def by blast
  then show "scan_version s = Some [a, b, c]" by (simp only: scan_version_decomposed)
next
  assume "scan_version s = Some [a, b, c]"
  from scan_version_SomeD [OF this] show "version_groups s a b c"
    unfolding version_groups_def by auto
qed

lemma probe_outcomes:
  assumes out: "Popen_outcome h [exe, ''--version''] = out"
    and g: "g = fst (get_version h w exe)"
    and n: "n = int_max_str_digits h"
  shows "(g = Inl InvalidPythonEnvironment \<longleftrightarrow>
      out = OSError
      \<or> (\<exists>rc so se. out = Exited rc so se \<and> rc \<noteq> 0)
      \<or> (\<exists>rc so se. out = Exited rc so se \<and> \<not> version_pattern_matches (so @ se)))
   \<and> (g = Inl ValueError \<longleftrightarrow>
      out = PopenValueError
      \<or> (\<exists>so se a b c. out = Exited 0 so se \<and> version_groups (so @ se) a b c \<and>
            (exceeds_int_limit n a \<or> exceeds_int_limit n b \<or> exceeds_int_limit n c)))
   \<and> g \<noteq> Inl TypeError
   \<and> (\<forall>v. g = Inr v \<longrightarrow>
        (\<exists>so se a b c. out = Exited 0 so se \<and> version_groups (so @ se) a b c \<and>
           v = VersionInfo (decimal a) (decimal b) (decimal c) \<and>
           0 \<le> major v \<and> 0 \<le> minor v \<and> 0 \<le> micro v))"
proof (cases out)
  case OSError
  with out have "Popen_outcome h [exe, ''--version''] = OSError" by (simp only:)
  then have "g = Inl InvalidPythonEnvironment"
    unfolding g by (rule get_version_OSError)
  with OSError show ?thesis by simp
next
  case PopenValueError
  with out have "Popen_outcome h [exe, ''--version''] = PopenValueError" by (simp only:)
  then have "g = Inl ValueError"
    unfolding g by (rule get_version_PopenValueError)
  with PopenValueError show ?thesis by simp
next
  case (Exited rc so se)
  show ?thesis
  proof (cases "rc = 0")
    case False
    from out Exited have "Popen_outcome h [exe, ''--version''] = Exited rc so se"
      by (simp only:)
    then have "g = Inl InvalidPythonEnvironment"
      unfolding g using False by (rule get_version_nonzero)
    with Exited False show ?thesis by simp
  next
    case True
    with out Exited have run: "Popen_outcome h [exe, ''--version''] = Exited 0 so se"
      by (simp only:)
    show ?thesis
    proof (cases "scan_version (so @ se)")
      case None
      with run have "g = Inl InvalidPythonEnvironment"
        unfolding g by (rule get_version_no_match)
      moreover from None have "\<not> version_pattern_matches (so @ se)"
        by (simp add: version_pattern_matches_iff)
      moreover from None have "\<And>a b c. \<not> version_groups (so @ se) a b c"
        by (simp add: version_groups_iff)
      ultimately show ?thesis using Exited True by simp
    next
      case (Some gs)
      from get_version_match [OF run Some, of w] obtain a b c where
        gs: "gs = [a, b, c]" and d: "digits a" "digits b" "digits c" and
        v: "g = (if exceeds_int_limit n a \<or> exceeds_int_limit n b \<or> exceeds_int_limit n c
              then Inl ValueError
              else Inr (VersionInfo (decimal a) (decimal b) (decimal c)))"
        unfolding g n by blast
      have m: "version_pattern_matches (so @ se)"
        using Some by (simp add: version_pattern_matches_iff)
      have grp: "\<And>a' b' c'. version_groups (so @ se) a' b' c' \<longleftrightarrow> a' = a \<and> b' = b \<and> c' = c"
        using Some gs by (auto simp: version_groups_iff)
      have nn: "0 \<le> decimal a" "0 \<le> decimal b" "0 \<le> decimal c"
        using d by (simp_all add: decimal_nonneg)
      show ?thesis
      proof (cases "exceeds_int_limit n a \<or> exceeds_int_limit n b \<or> exceeds_int_limit n c")
        case over: True
        with v have "g = Inl ValueError" by simp
        with over m grp Exited True show ?thesis by simp
      next
        case within: False
        with v have "g = Inr (VersionInfo (decimal a) (decimal b) (decimal c))" by simp
        with within m grp nn Exited True show ?thesis by simp
      qed
    qed
  qed
qed

section \<open>Evaluation on the example host\<close>

lemma demo_host_fields:
  "run_process demo_host = demo_run_process"
  "path_exists demo_host p \<longleftrightarrow> p \<in> set
        [''/venv/bin/activate'', ''/venv/bin/python'',
         ''/broken/bin/activate'', ''/broken/bin/python'',
         ''/odd/bin/activate'', ''/odd/bin/python'',
         ''/half/bin/activate'', ''/bare/bin/python'',
         ''/huge/bin/activate'', ''/huge/bin/python'']"
  "find_executable demo_host name =
     (if name = ''python2.7'' then Some ''/usr/bin/python2.7''
      else if name = ''python3.6'' then Some ''/usr/bin/python3.6''
      else None)"
  "sys_prefix demo_host = ''/usr''"
  "sys_executable demo_host = ''/usr/bin/python3.6''"
  "sys_version_info demo_host = VersionInfo 3 6 5"
  "sys_path demo_host = [''/usr/lib/python3.6'']"
  "int_max_str_digits demo_host = 4300"
  "subprocess_sys_path demo_host exe = [exe @ ''/../lib'']"
  by (simp_all add: demo_host_def)

lemmas host_eval = demo_host_fields demo_run_process_def Popen_outcome_def has_nul_def
lemmas probe_eval = probe_result_def get_version_def re_match_VERSION_RE scan_version_def
     take_literal_def take_digits_def is_digit_def py_int_def exceeds_int_limit_def decimal_def
     digit_val_def empty_world_def
lemmas str_nat_eval = str_nat.simps char_of_def bit_Suc_0_iff

section \<open>The version probe\<close>

lemma digits_replicate: "0 < n \<Longrightarrow> is_digit c \<Longrightarrow> digits (replicate n c)"
  by (auto simp: digits_def list_all_iff)

lemma version_groups_matches: "version_groups s a b c \<Longrightarrow> version_pattern_matches s"
  unfolding version_groups_def version_pattern_matches_def by blast

lemma demo_huge_outcome:
  "Popen_outcome demo_host [''/huge/bin/python'', ''--version'']
     = Exited 0 (''Python '' @ replicate 4301 CHR ''1'' @ ''.0.0'') []"
  by (simp add: host_eval)

lemma demo_huge_groups:
  "version_groups ((''Python '' @ replicate 4301 CHR ''1'' @ ''.0.0'') @ [])
     (replicate 4301 CHR ''1'') ''0'' ''0''"
proof -
  have "digits (replicate 4301 CHR ''1'')"
    by (rule digits_replicate) (simp_all add: is_digit_def)
  moreover have "digits ''0''" by (simp add: digits_def is_digit_def)
  ultimately show ?thesis
    unfolding version_groups_def by (intro exI [of _ "[]"]) simp
qed

lemma demo_huge_probe: "probe_result demo_host ''/huge/bin/python'' = Inl ValueError"
proof -
  have "exceeds_int_limit (int_max_str_digits demo_host) (replicate 4301 CHR ''1'')"
    by (simp add: exceeds_int_limit_def demo_host_fields)
  with demo_huge_groups have "\<exists>so se a b c.
      Exited 0 (''Python '' @ replicate 4301 CHR ''1'' @ ''.0.0'') [] = Exited 0 so se \<and>
      version_groups (so @ se) a b c \<and>
      (exceeds_int_limit (int_max_str_digits demo_host) a
        \<or> exceeds_int_limit (int_max_str_digits demo_host) b
        \<or> exceeds_int_limit (int_max_str_digits demo_host) c)"
    by blast
  with probe_outcomes [OF demo_huge_outcome refl refl, of empty_world]
  show ?thesis unfolding probe_result_def by blast
qed

lemma demo_nul_probe: "probe_result h (''py'' @ [CHR 0x00] @ ''thon'') = Inl ValueError"
proof -
  have "Popen_outcome h [''py'' @ [CHR 0x00] @ ''thon'', ''--version''] = PopenValueError"
    by (simp add: Popen_outcome_def has_nul_def)
  then show ?thesis unfolding probe_result_def by (rule get_version_PopenValueError)
qed

text \<open>
  C2 says that the triple of a version line at the start of the combined output is
  returned exactly. On the example host \<open>/noisy/bin/python\<close> writes \<open>Python 3.6.5\<close> to
  stdout and \<open>7 warnings\<close> to stderr: the combined output starts with the version line
  of \<open>(3, 6, 5)\<close>, and the probe returns \<open>(3, 6, 57)\<close>.
\<close>

theorem digits_after_the_version_line_are_read_into_micro:
  "Popen_outcome demo_host [''/noisy/bin/python'', ''--version'']
     = Exited 0 ''Python 3.6.5'' ''7 warnings'' \<and>
   ''Python 3.6.5'' @ ''7 warnings'' = version_line 3 6 5 @ ''7 warnings'' \<and>
   fst (get_version demo_host empty_world ''/noisy/bin/python'') = Inr (VersionInfo 3 6 57) \<and>
   fst (get_version demo_host empty_world ''/noisy/bin/python'') \<noteq> Inr (VersionInfo 3 6 5)"
proof -
  have 1: "Popen_outcome demo_host [''/noisy/bin/python'', ''--version'']
     = Exited 0 ''Python 3.6.5'' ''7 warnings''"
    by (simp add: host_eval)
  have 2: "''Python 3.6.5'' @ ''7 warnings'' = version_line 3 6 5 @ ''7 warnings''"
    by (simp add: version_line_def str_nat_eval)
  have 3: "fst (get_version demo_host empty_world ''/noisy/bin/python'') = Inr (VersionInfo 3 6 57)"
    by (simp add: probe_eval host_eval)
  from 3 have 4: "fst (get_version demo_host empty_world ''/noisy/bin/python'')
      \<noteq> Inr (VersionInfo 3 6 5)" by simp
  from 1 2 3 4 show ?thesis by (intro conjI)
qed

text \<open>
  C2, amended. When the probed executable runs and exits with code 0, the combined output
  \<open>stdout + stderr\<close> begins with the version line \<open>Python a.b.c\<close> of a triple of natural
  numbers, the line is followed by nothing or by something that is not a digit (such as
  the newline a runtime prints), and none of the three numerals has more digits than the
  interpreter's limit on integer string conversion, then \<open>_get_version\<close> returns exactly
  \<open>(a, b, c)\<close>. Only the concatenation of the two streams enters the statement: the line
  may have been written to either of them.
\<close>

theorem get_version_parses_version_line:
  assumes "Popen_outcome h [exe, ''--version''] = Exited 0 out err"
    and "out @ err = version_line a b c @ rest"
    and "rest = [] \<or> \<not> is_digit (hd rest)"
    and "\<not> exceeds_int_limit (int_max_str_digits h) (str_nat a)"
    and "\<not> exceeds_int_limit (int_max_str_digits h) (str_nat b)"
    and "\<not> exceeds_int_limit (int_max_str_digits h) (str_nat c)"
  shows "fst (get_version h w exe) = Inr (VersionInfo (int a) (int b) (int c))"
proof -
  have "scan_version (out @ err) = Some [str_nat a, str_nat b, str_nat c]"
    using scan_version_decomposed [OF digits_str_nat digits_str_nat digits_str_nat assms(3)]
    by (simp add: assms(2) version_line_def)
  from get_version_match [OF assms(1) this, of w] assms(4,5,6) show ?thesis
    by (simp add: decimal_str_nat)
qed

theorem get_version_parses_version_line_witness:
  "fst (get_version demo_host empty_world ''/usr/bin/python3.6'') = Inr (VersionInfo 3 6 5) \<and>
   fst (get_version demo_host empty_world ''/usr/bin/python2.7'') = Inr (VersionInfo 2 7 14)"
  using get_version_parses_version_line
      [of demo_host "''/usr/bin/python3.6''" "''Python 3.6.5'' @ [CHR 0x0A]" "[]" 3 6 5
          "[CHR 0x0A]" empty_world]
    get_version_parses_version_line
      [of demo_host "''/usr/bin/python2.7''" "[]" "''Python 2.7.14'' @ [CHR 0x0A]" 2 7 14
          "[CHR 0x0A]" empty_world]
  by (simp add: host_eval version_line_def str_nat_eval is_digit_def exceeds_int_limit_def)

text \<open>
  C3 says that \<open>_get_version\<close> fails in exactly three cases, each time with
  \<open>InvalidPythonEnvironment\<close>. For an executable name with an embedded null byte
  \<open>Popen\<close> raises \<open>ValueError\<close>, which \<open>except OSError\<close> does not catch; and on the example
  host, whose interpreter limits integer string conversion to 4300 digits,
  \<open>/huge/bin/python\<close> prints a line that matches the pattern and \<open>int\<close> raises
  \<open>ValueError\<close> on its first group.
\<close>

theorem get_version_can_raise_ValueError:
  "has_nul (''py'' @ [CHR 0x00] @ ''thon'') \<and>
   fst (get_version demo_host empty_world (''py'' @ [CHR 0x00] @ ''thon'')) = Inl ValueError \<and>
   Popen_outcome demo_host [''/huge/bin/python'', ''--version'']
     = Exited 0 (''Python '' @ replicate 4301 CHR ''1'' @ ''.0.0'') [] \<and>
   version_pattern_matches ((''Python '' @ replicate 4301 CHR ''1'' @ ''.0.0'') @ []) \<and>
   fst (get_version demo_host empty_world ''/huge/bin/python'') = Inl ValueError \<and>
   ValueError \<noteq> InvalidPythonEnvironment"
proof -
  have 1: "has_nul (''py'' @ [CHR 0x00] @ ''thon'')" by (simp add: has_nul_def)
  have 2: "fst (get_version demo_host empty_world (''py'' @ [CHR 0x00] @ ''thon''))
      = Inl ValueError"
    unfolding get_version_fst by (rule demo_nul_probe)
  have 3: "version_pattern_matches ((''Python '' @ replicate 4301 CHR ''1'' @ ''.0.0'') @ [])"
    using demo_huge_groups by (rule version_groups_matches)
  have 4: "fst (get_version demo_host empty_world ''/huge/bin/python'') = Inl ValueError"
    unfolding get_version_fst by (rule demo_huge_probe)
  have 5: "ValueError \<noteq> InvalidPythonEnvironment" by simp
  from 1 2 demo_huge_outcome 3 4 5 show ?thesis by (intro conjI)
qed

text \<open>
  C3, amended. \<open>_get_version\<close> raises \<open>InvalidPythonEnvironment\<close> exactly when \<open>Popen\<close>
  raised an \<open>OSError\<close>, or the process exited with a non-zero code, or the combined
  output does not match the version pattern. It raises \<open>ValueError\<close> exactly when
  \<open>Popen\<close> raised it, as it does for an executable name with an embedded null byte, or
  when the output matched and one of the three digit groups has more digits than the
  interpreter's limit on integer string conversion. It raises nothing else, and a failure
  carries no triple. When it returns, the result is the triple of the non-negative values
  of the three digit groups of the output.
\<close>

theorem get_version_fails_in_three_cases:
  "(fst (get_version h w exe) = Inl InvalidPythonEnvironment \<longleftrightarrow>
      Popen_outcome h [exe, ''--version''] = OSError
      \<or> (\<exists>rc so se. Popen_outcome h [exe, ''--version''] = Exited rc so se \<and> rc \<noteq> 0)
      \<or> (\<exists>rc so se. Popen_outcome h [exe, ''--version''] = Exited rc so se \<and>
            \<not> version_pattern_matches (so @ se)))
   \<and> (fst (get_version h w exe) = Inl ValueError \<longleftrightarrow>
      Popen_outcome h [exe, ''--version''] = PopenValueError
      \<or> (\<exists>so se a b c. Popen_outcome h [exe, ''--version''] = Exited 0 so se \<and>
            version_groups (so @ se) a b c \<and>
            (exceeds_int_limit (int_max_str_digits h) a
              \<or> exceeds_int_limit (int_max_str_digits h) b
              \<or> exceeds_int_limit (int_max_str_digits h) c)))
   \<and> fst (get_version h w exe) \<noteq> Inl TypeError
   \<and> (\<forall>v. fst (get_version h w exe) = Inr v \<longrightarrow>
        (\<exists>so se a b c. Popen_outcome h [exe, ''--version''] = Exited 0 so se \<and>
           version_groups (so @ se) a b c \<and>
           v = VersionInfo (decimal a) (decimal b) (decimal c) \<and>
           0 \<le> major v \<and> 0 \<le> minor v \<and> 0 \<le> micro v))
   \<and> (has_nul exe \<longrightarrow> Popen_outcome h [exe, ''--version''] = PopenValueError)"
proof -
  have "has_nul exe \<longrightarrow> Popen_outcome h [exe, ''--version''] = PopenValueError"
    by (simp add: Popen_outcome_version)
  with probe_outcomes [OF refl refl refl, where h = h and exe = exe and w = w]
  show ?thesis
    apply -
    apply (elim conjE)
    apply (intro conjI)
    apply assumption+
    done
qed

lemma not_matches_odd: "\<not> version_pattern_matches ''Jython 2.7''"
  by (simp add: version_pattern_matches_iff scan_version_def take_literal_def)

theorem get_version_fails_in_three_cases_witness:
  "fst (get_version demo_host empty_world ''/missing/python'') = Inl InvalidPythonEnvironment \<and>
   fst (get_version demo_host empty_world ''/broken/bin/python'') = Inl InvalidPythonEnvironment \<and>
   fst (get_version demo_host empty_world ''/odd/bin/python'') = Inl InvalidPythonEnvironment \<and>
   Popen_outcome demo_host [''py'' @ [CHR 0x00] @ ''thon'', ''--version''] = PopenValueError \<and>
   (\<exists>so se a b c.
      Popen_outcome demo_host [''/venv/bin/python'', ''--version''] = Exited 0 so se \<and>
      version_groups (so @ se) a b c \<and>
      VersionInfo 3 6 5 = VersionInfo (decimal a) (decimal b) (decimal c))"
proof -
  have 1: "Popen_outcome demo_host [''/missing/python'', ''--version''] = OSError"
    by (simp add: host_eval)
  have 2: "Popen_outcome demo_host [''/broken/bin/python'', ''--version'']
      = Exited 1 [] ''cannot start''"
    by (simp add: host_eval)
  have 3: "Popen_outcome demo_host [''/odd/bin/python'', ''--version''] = Exited 0 ''Jython 2.7'' []"
    by (simp add: host_eval)
  have 4: "fst (get_version demo_host empty_world ''/venv/bin/python'') = Inr (VersionInfo 3 6 5)"
    by (simp add: probe_eval host_eval)
  have 5: "fst (get_version demo_host empty_world ''/missing/python'') = Inl InvalidPythonEnvironment"
    using get_version_fails_in_three_cases [of demo_host empty_world "''/missing/python''"] 1
    by simp
  have 6: "fst (get_version demo_host empty_world ''/broken/bin/python'') = Inl InvalidPythonEnvironment"
    using get_version_fails_in_three_cases [of demo_host empty_world "''/broken/bin/python''"] 2
    by simp
  have 7: "fst (get_version demo_host empty_world ''/odd/bin/python'') = Inl InvalidPythonEnvironment"
    using get_version_fails_in_three_cases [of demo_host empty_world "''/odd/bin/python''"] 3
      not_matches_odd
    by simp
  have 8: "\<exists>so se a b c.
      Popen_outcome demo_host [''/venv/bin/python'', ''--version''] = Exited 0 so se \<and>
      version_groups (so @ se) a b c \<and>
      VersionInfo 3 6 5 = VersionInfo (decimal a) (decimal b) (decimal c)"
    using get_version_fails_in_three_cases [of demo_host empty_world "''/venv/bin/python''"] 4
    by blast
  have "has_nul (''py'' @ [CHR 0x00] @ ''thon'')" by (simp add: has_nul_def)
  with get_version_fails_in_three_cases [of demo_host empty_world "''py'' @ [CHR 0x00] @ ''thon''"]
  have 9: "Popen_outcome demo_host [''py'' @ [CHR 0x00] @ ''thon'', ''--version''] = PopenValueError"
    by blast
  from 5 6 7 9 8 show ?thesis by (intro conjI)
qed

section \<open>Validation of a directory\<close>

text \<open>
  C4. \<open>_get_executable_path(path)\<close> returns the interpreter path
  \<open>join(join(path, 'bin'), 'python')\<close> if and only if that file and
  \<open>join(join(path, 'bin'), 'activate')\<close> both exist, and raises
  \<open>InvalidPythonEnvironment\<close> if and only if one of them is missing. For a non-empty
  \<open>path\<close> without a trailing separator the two files are \<open>path/bin/activate\<close> and
  \<open>path/bin/python\<close>.
\<close>

theorem get_executable_path_needs_both_files:
  "(get_executable_path h path = Inr (python_path path) \<longleftrightarrow>
      path_exists h (activate_path path) \<and> path_exists h (python_path path))
   \<and> (get_executable_path h path = Inl InvalidPythonEnvironment \<longleftrightarrow>
      \<not> (path_exists h (activate_path path) \<and> path_exists h (python_path path)))
   \<and> (path \<noteq> [] \<and> last path \<noteq> CHR ''/'' \<longrightarrow>
      activate_path path = path @ ''/bin/activate'' \<and>
      python_path path = path @ ''/bin/python'')"
  by (auto simp: get_executable_path_def activate_path_def python_path_def path_join_def Let_def)

theorem get_executable_path_needs_both_files_witness:
  "get_executable_path demo_host ''/venv'' = Inr ''/venv/bin/python'' \<and>
   get_executable_path demo_host ''/half'' = Inl InvalidPythonEnvironment \<and>
   get_executable_path demo_host ''/bare'' = Inl InvalidPythonEnvironment \<and>
   get_executable_path demo_host ''/empty'' = Inl InvalidPythonEnvironment"
  using get_executable_path_needs_both_files [of demo_host "''/venv''"]
    get_executable_path_needs_both_files [of demo_host "''/half''"]
    get_executable_path_needs_both_files [of demo_host "''/bare''"]
    get_executable_path_needs_both_files [of demo_host "''/empty''"]
  by (simp add: demo_host_fields activate_path_def python_path_def path_join_def)

section \<open>Effects of the constructors\<close>

lemma get_version_eq: "get_version h w exe = (probe_result h exe, log_probe w exe)"
  by (rule prod_eqI) (simp_all add: get_version_fst get_version_world)

lemma probe_result_error:
  "probe_result h exe = Inl e \<Longrightarrow> e = InvalidPythonEnvironment \<or> e = ValueError"
  using probe_outcomes [OF refl refl refl, where h = h and exe = exe and w = empty_world]
  unfolding probe_result_def by (cases e) simp_all

lemma probe_result_nonneg:
  "probe_result h exe = Inr v \<Longrightarrow> 0 \<le> major v \<and> 0 \<le> minor v \<and> 0 \<le> micro v"
  using probe_outcomes [OF refl refl refl, where h = h and exe = exe and w = empty_world]
  unfolding probe_result_def by blast

lemma new_Environment_eq:
  "new_Environment h w path exe =
     (case probe_result h exe of
        Inl e \<Rightarrow> (Inl e, log_probe w exe)
      | Inr v \<Rightarrow> (Inr (length (heap w)),
          (log_probe w exe)\<lparr>heap := heap w @ [Environment path exe v None]\<rparr>))"
  by (simp add: new_Environment_def get_version_eq alloc_def log_probe_def split: sum.splits)

lemma spawned_log_probe: "spawned (log_probe w exe) = spawned w @ [Popen [exe, ''--version'']]"
  by (simp add: log_probe_def)

lemma heap_log_probe: "heap (log_probe w exe) = heap w"
  by (simp add: log_probe_def)

lemma new_Environment_spawned:
  "spawned (snd (new_Environment h w path exe)) = spawned w @ [Popen [exe, ''--version'']]"
  by (simp add: new_Environment_eq spawned_log_probe split: sum.splits)

lemma deref_alloc:
  "deref (w\<lparr>heap := heap w @ [obj]\<rparr>) r =
     (if r = length (heap w) then Some obj else deref w r)"
  by (auto simp: deref_def nth_append)

lemma deref_fresh: "deref w (length (heap w)) = None"
  by (simp add: deref_def)

lemma get_sys_path_InterpreterEnvironment:
  "deref w r = Some (InterpreterEnvironment v) \<Longrightarrow> get_sys_path h w r = Some (sys_path h, w)"
  by (simp add: get_sys_path_def)

lemma get_sys_path_cached:
  "deref w r = Some (Environment path exe v (Some p)) \<Longrightarrow> get_sys_path h w r = Some (p, w)"
  by (simp add: get_sys_path_def)

section \<open>Construction and the probe\<close>

text \<open>
  C1 says that constructing the default environment spawns nothing and that the probe
  waits for the first access of the version. On the example host the construction itself
  runs \<open>/usr/bin/python3.6 --version\<close>.
\<close>

theorem default_environment_is_probed_at_construction:
  "spawned (snd (get_default_environment demo_host empty_world))
     = [Popen [''/usr/bin/python3.6'', ''--version'']] \<and>
   spawned (snd (get_default_environment demo_host empty_world)) \<noteq> spawned empty_world"
  by (simp add: get_default_environment_def new_Environment_spawned demo_host_fields empty_world_def)

text \<open>
  C1, amended. Constructing an \<open>Environment\<close>, the default environment included, runs
  the version probe at construction time: exactly one \<open>Popen\<close> of
  \<open>[executable, '--version']\<close> is recorded, whether the probe succeeds or not, and
  nothing else. A constructed \<open>Environment\<close> has its search-path cell unset: that
  request waits for the first \<open>get_sys_path\<close>. Constructing an
  \<open>InterpreterEnvironment\<close> spawns nothing, and its \<open>get_sys_path\<close> returns
  \<open>sys.path\<close> and leaves the world as it is.
\<close>

theorem construction_runs_the_probe_once:
  "spawned (snd (new_Environment h w path exe)) = spawned w @ [Popen [exe, ''--version'']] \<and>
   spawned (snd (get_default_environment h w))
     = spawned w @ [Popen [sys_executable h, ''--version'']] \<and>
   (\<forall>r w'. new_Environment h w path exe = (Inr r, w') \<longrightarrow>
      (\<exists>v. deref w' r = Some (Environment path exe v None))) \<and>
   spawned (snd (new_InterpreterEnvironment h w)) = spawned w \<and>
   (\<forall>r v. deref w r = Some (InterpreterEnvironment v) \<longrightarrow>
      get_sys_path h w r = Some (sys_path h, w))"
proof (intro conjI allI impI)
  show "spawned (snd (new_Environment h w path exe)) = spawned w @ [Popen [exe, ''--version'']]"
    by (rule new_Environment_spawned)
  show "spawned (snd (get_default_environment h w))
      = spawned w @ [Popen [sys_executable h, ''--version'']]"
    unfolding get_default_environment_def by (rule new_Environment_spawned)
  show "spawned (snd (new_InterpreterEnvironment h w)) = spawned w"
    by (simp add: new_InterpreterEnvironment_def alloc_def)
next
  fix r w' assume "new_Environment h w path exe = (Inr r, w')"
  then show "\<exists>v. deref w' r = Some (Environment path exe v None)"
    by (auto simp: new_Environment_eq deref_alloc heap_log_probe deref_def split: sum.splits)
next
  fix r v assume "deref w r = Some (InterpreterEnvironment v)"
  then show "get_sys_path h w r = Some (sys_path h, w)"
    by (rule get_sys_path_InterpreterEnvironment)
qed

lemma demo_interpreter:
  "new_InterpreterEnvironment demo_host empty_world
     = (0, \<lparr>spawned = [], heap = [InterpreterEnvironment (VersionInfo 3 6 5)]\<rparr>)"
  by (simp add: new_InterpreterEnvironment_def alloc_def demo_host_fields empty_world_def)

lemma demo_default_probe: "probe_result demo_host ''/usr/bin/python3.6'' = Inr (VersionInfo 3 6 5)"
  by (simp add: probe_eval host_eval)

lemma demo_default:
  "get_default_environment demo_host empty_world
     = (Inr 0, \<lparr>spawned = [Popen [''/usr/bin/python3.6'', ''--version'']],
                heap = [Environment ''/usr'' ''/usr/bin/python3.6'' (VersionInfo 3 6 5) None]\<rparr>)"
  unfolding get_default_environment_def new_Environment_eq
  by (simp add: demo_host_fields demo_default_probe log_probe_def empty_world_def)

theorem construction_runs_the_probe_once_witness:
  "deref \<lparr>spawned = [Popen [''/usr/bin/python3.6'', ''--version'']],
          heap = [Environment ''/usr'' ''/usr/bin/python3.6'' (VersionInfo 3 6 5) None]\<rparr> 0
     = Some (Environment ''/usr'' ''/usr/bin/python3.6'' (VersionInfo 3 6 5) None) \<and>
   get_sys_path demo_host \<lparr>spawned = [], heap = [InterpreterEnvironment (VersionInfo 3 6 5)]\<rparr> 0
     = Some ([''/usr/lib/python3.6''],
         \<lparr>spawned = [], heap = [InterpreterEnvironment (VersionInfo 3 6 5)]\<rparr>)"
proof -
  let ?w = "\<lparr>spawned = [], heap = [InterpreterEnvironment (VersionInfo 3 6 5)]\<rparr>"
  have 1: "deref ?w 0 = Some (InterpreterEnvironment (VersionInfo 3 6 5))"
    by (simp add: deref_def)
  have 2: "new_Environment demo_host empty_world ''/usr'' ''/usr/bin/python3.6''
     = (Inr 0, \<lparr>spawned = [Popen [''/usr/bin/python3.6'', ''--version'']],
                heap = [Environment ''/usr'' ''/usr/bin/python3.6'' (VersionInfo 3 6 5) None]\<rparr>)"
    using demo_default by (simp add: get_default_environment_def demo_host_fields)
  have 3: "sys_path demo_host = [''/usr/lib/python3.6'']" by (simp add: demo_host_fields)
  from construction_runs_the_probe_once [of demo_host empty_world "''/usr''" "''/usr/bin/python3.6''"] 2
  have a: "\<exists>v. deref \<lparr>spawned = [Popen [''/usr/bin/python3.6'', ''--version'']],
          heap = [Environment ''/usr'' ''/usr/bin/python3.6'' (VersionInfo 3 6 5) None]\<rparr> 0
     = Some (Environment ''/usr'' ''/usr/bin/python3.6'' v None)" by blast
  then have a': "deref \<lparr>spawned = [Popen [''/usr/bin/python3.6'', ''--version'']],
          heap = [Environment ''/usr'' ''/usr/bin/python3.6'' (VersionInfo 3 6 5) None]\<rparr> 0
     = Some (Environment ''/usr'' ''/usr/bin/python3.6'' (VersionInfo 3 6 5) None)"
    by (simp add: deref_def)
  from construction_runs_the_probe_once [of demo_host ?w "''x''" "''y''"] 1 3
  have b: "get_sys_path demo_host ?w 0 = Some ([''/usr/lib/python3.6''], ?w)" by metis
  from a' b show ?thesis by (rule conjI)
qed

section \<open>The interpreter environment\<close>

text \<open>
  C9 says that any two retrievals of the interpreter environment return the same
  instance. The module has the class and no accessor: a retrieval is a constructor call,
  and two calls give two objects.
\<close>

theorem two_interpreter_environments_are_two_objects:
  "fst (new_InterpreterEnvironment demo_host (snd (new_InterpreterEnvironment demo_host empty_world)))
     \<noteq> fst (new_InterpreterEnvironment demo_host empty_world) \<and>
   heap (snd (new_InterpreterEnvironment demo_host
       (snd (new_InterpreterEnvironment demo_host empty_world))))
     = [InterpreterEnvironment (VersionInfo 3 6 5), InterpreterEnvironment (VersionInfo 3 6 5)]"
  by (simp add: new_InterpreterEnvironment_def alloc_def demo_host_fields empty_world_def)

text \<open>
  C9, amended. Every call \<open>InterpreterEnvironment()\<close> creates a new object: its
  reference named no object before, the objects that existed are unchanged, the new
  object holds the host's own version, nothing is spawned, and the next call returns yet
  another reference.
\<close>

theorem InterpreterEnvironment_is_a_new_object:
  assumes "new_InterpreterEnvironment h w = (r, w')"
  shows "deref w r = None \<and>
    deref w' r = Some (InterpreterEnvironment (sys_version_info h)) \<and>
    (\<forall>r'. r' \<noteq> r \<longrightarrow> deref w' r' = deref w r') \<and>
    spawned w' = spawned w \<and>
    fst (new_InterpreterEnvironment h w') \<noteq> r"
proof -
  from assms have r: "r = length (heap w)"
    and w': "w' = w\<lparr>heap := heap w @ [InterpreterEnvironment (sys_version_info h)]\<rparr>"
    by (simp_all add: new_InterpreterEnvironment_def alloc_def)
  have "fst (new_InterpreterEnvironment h w') = Suc (length (heap w))"
    by (simp add: w' new_InterpreterEnvironment_def alloc_def)
  then show ?thesis
    by (simp add: r w' deref_alloc deref_fresh)
qed

theorem InterpreterEnvironment_is_a_new_object_witness:
  "deref empty_world 0 = None \<and>
   deref \<lparr>spawned = [], heap = [InterpreterEnvironment (VersionInfo 3 6 5)]\<rparr> 0
     = Some (InterpreterEnvironment (VersionInfo 3 6 5)) \<and>
   fst (new_InterpreterEnvironment demo_host
         \<lparr>spawned = [], heap = [InterpreterEnvironment (VersionInfo 3 6 5)]\<rparr>) \<noteq> 0"
  using InterpreterEnvironment_is_a_new_object [OF demo_interpreter]
  by (simp add: demo_host_fields)

section \<open>The execution channel\<close>

text \<open>
  C6. \<open>get_evaluator_subprocess\<close> of an \<open>InterpreterEnvironment\<close> returns an
  \<open>EvaluatorSameProcess\<close>; of an \<open>Environment\<close> it returns an
  \<open>EvaluatorSubprocess\<close> on the worker of the environment's executable, whatever the
  environment's version is, the host's own version included.
\<close>

theorem get_evaluator_subprocess_by_class:
  "get_evaluator_subprocess (InterpreterEnvironment v) evaluator = EvaluatorSameProcess evaluator \<and>
   get_evaluator_subprocess (Environment path exe v memo) evaluator
     = EvaluatorSubprocess evaluator (get_subprocess exe) \<and>
   get_evaluator_subprocess (Environment path exe (sys_version_info h) memo) evaluator
     = EvaluatorSubprocess evaluator (get_subprocess exe)"
  by simp

theorem get_evaluator_subprocess_by_class_witness:
  "map_option (\<lambda>obj. get_evaluator_subprocess obj ())
     (deref (snd (get_default_environment demo_host empty_world)) 0)
     = Some (EvaluatorSubprocess () (get_subprocess ''/usr/bin/python3.6'')) \<and>
   read_version_info (snd (get_default_environment demo_host empty_world)) 0
     = Some (sys_version_info demo_host) \<and>
   map_option (\<lambda>obj. get_evaluator_subprocess obj ())
     (deref (snd (new_InterpreterEnvironment demo_host empty_world)) 0)
     = Some (EvaluatorSameProcess ())"
  using get_evaluator_subprocess_by_class
    [of "VersionInfo 3 6 5" "()" "''/usr''" "''/usr/bin/python3.6''" None demo_host]
  by (simp add: demo_default demo_interpreter deref_def read_version_info_def demo_host_fields
      del: get_evaluator_subprocess.simps)

section \<open>The constructing functions\<close>

lemma get_executable_path_eq:
  "get_executable_path h path =
     (if path_exists h (activate_path path) \<and> path_exists h (python_path path)
      then Inr (python_path path) else Inl InvalidPythonEnvironment)"
  by (simp add: get_executable_path_def activate_path_def python_path_def Let_def)

lemma yield_eq:
  "yield n (([Suc n ..< Suc n + k], err), w) = (([n ..< n + Suc k], err), w)"
  by (simp add: yield_def upt_conv_Cons)

lemma first_error_Nil: "first_error f [] = None"
  by (simp add: first_error_def map_filter_simps)

lemma first_error_Cons:
  "first_error f (x # xs) = (case f x of None \<Rightarrow> first_error f xs | Some e \<Rightarrow> Some e)"
  by (simp add: first_error_def map_filter_simps split: option.splits)

lemma before_error_Nil: "before_error f [] = []"
  by (simp add: before_error_def)

lemma before_error_Cons:
  "before_error f (x # xs) = (if f x = None then x # before_error f xs else [])"
  by (simp add: before_error_def)

lemma through_error_Nil: "through_error f [] = []"
  by (simp add: through_error_def before_error_def)

lemma through_error_Cons:
  "through_error f (x # xs) = (if f x = None then x # through_error f xs else [x])"
  by (simp add: through_error_def before_error_def)

lemmas scan_simps = first_error_Nil first_error_Cons before_error_Nil before_error_Cons
  through_error_Nil through_error_Cons

lemma scan_without_error:
  "list_all (\<lambda>x. f x = None) xs \<Longrightarrow>
   first_error f xs = None \<and> before_error f xs = xs \<and> through_error f xs = xs"
  by (induction xs) (simp_all add: scan_simps)

lemma first_error_cases:
  assumes "\<And>x. f x = None \<or> f x = Some e"
  shows "first_error f xs = None \<or> first_error f xs = Some e"
proof (induction xs)
  case Nil
  show ?case by (simp add: scan_simps)
next
  case (Cons x xs)
  from assms [of x] Cons.IH show ?case by (auto simp: scan_simps)
qed

lemma first_error_at:
  "x \<in> set xs \<Longrightarrow> f x = Some e \<Longrightarrow> \<exists>e'. first_error f xs = Some e'"
  by (induction xs) (auto simp: scan_simps split: option.splits)

lemma virtualenv_error_cases:
  "virtualenv_error h path = None \<or> virtualenv_error h path = Some ValueError"
  by (auto simp: virtualenv_error_def split: sum.splits dest: probe_result_error)

lemma virtualenv_probes_Nil: "virtualenv_probes h [] = []"
  by (simp add: virtualenv_probes_def)

lemma virtualenv_probes_Cons:
  "virtualenv_probes h (path # paths) =
     (if path_exists h (activate_path path) \<and> path_exists h (python_path path)
      then Popen [python_path path, ''--version''] # virtualenv_probes h paths
      else virtualenv_probes h paths)"
  by (simp add: virtualenv_probes_def)

lemma find_virtualenvs_loop_eq:
  "find_virtualenvs_loop h w paths =
     (([length (heap w) ..< length (heap w)
          + length (List.map_filter (virtualenv_at h) (before_error (virtualenv_error h) paths))],
       first_error (virtualenv_error h) paths),
      w\<lparr>spawned := spawned w @ virtualenv_probes h (through_error (virtualenv_error h) paths),
        heap := heap w
          @ List.map_filter (virtualenv_at h) (before_error (virtualenv_error h) paths)\<rparr>)"
proof (induction paths arbitrary: w)
  case Nil
  show ?case by (simp add: virtualenv_probes_Nil map_filter_simps scan_simps)
next
  case (Cons path paths)
  let ?n = "length (heap w)"
  let ?objs = "List.map_filter (virtualenv_at h) (before_error (virtualenv_error h) paths)"
  let ?es = "virtualenv_probes h (through_error (virtualenv_error h) paths)"
  show ?case
  proof (cases "path_exists h (activate_path path) \<and> path_exists h (python_path path)")
    case False
    then have none: "virtualenv_at h path = None" and ok: "virtualenv_error h path = None"
      by (auto simp: virtualenv_at_def virtualenv_error_def)
    from False have "find_virtualenvs_loop h w (path # paths) = find_virtualenvs_loop h w paths"
      by (auto simp: get_executable_path_eq)
    with False show ?thesis
      by (simp add: Cons.IH none ok map_filter_simps scan_simps virtualenv_probes_Cons)
  next
    case True
    from True have exe: "get_executable_path h path = Inr (python_path path)"
      by (simp add: get_executable_path_eq)
    show ?thesis
    proof (cases "probe_result h (python_path path)")
      case (Inl e)
      with True have none: "virtualenv_at h path = None" by (simp add: virtualenv_at_def)
      show ?thesis
      proof (cases "e = InvalidPythonEnvironment")
        case caught: True
        with Inl True have ok: "virtualenv_error h path = None"
          by (simp add: virtualenv_error_def)
        from Inl caught have "find_virtualenvs_loop h w (path # paths)
            = find_virtualenvs_loop h (log_probe w (python_path path)) paths"
          by (simp add: exe new_Environment_eq)
        with True show ?thesis
          by (simp add: Cons.IH none ok map_filter_simps scan_simps virtualenv_probes_Cons
              log_probe_def)
      next
        case uncaught: False
        with Inl True have err: "virtualenv_error h path = Some e"
          by (simp add: virtualenv_error_def)
        from Inl uncaught have "find_virtualenvs_loop h w (path # paths)
            = (([], Some e), log_probe w (python_path path))"
          by (simp add: exe new_Environment_eq)
        with True show ?thesis
          by (simp add: err map_filter_simps scan_simps virtualenv_probes_Cons
              virtualenv_probes_Nil log_probe_def)
      qed
    next
      case (Inr v)
      let ?obj = "Environment path (python_path path) v None"
      let ?w1 = "(log_probe w (python_path path))\<lparr>heap := heap w @ [?obj]\<rparr>"
      from Inr True have some: "virtualenv_at h path = Some ?obj" by (simp add: virtualenv_at_def)
      from Inr True have ok: "virtualenv_error h path = None" by (simp add: virtualenv_error_def)
      let ?W = "w\<lparr>spawned := spawned w @ Popen [python_path path, ''--version''] # ?es,
                  heap := heap w @ ?obj # ?objs\<rparr>"
      from Inr have step: "find_virtualenvs_loop h w (path # paths)
          = yield ?n (find_virtualenvs_loop h ?w1 paths)"
        by (simp add: exe new_Environment_eq)
      have ih: "find_virtualenvs_loop h ?w1 paths
          = (([Suc ?n ..< Suc ?n + length ?objs], first_error (virtualenv_error h) paths), ?W)"
        by (simp add: Cons.IH log_probe_def)
      have "find_virtualenvs_loop h w (path # paths)
          = (([?n ..< ?n + Suc (length ?objs)], first_error (virtualenv_error h) paths), ?W)"
        by (simp only: step ih yield_eq)
      also have "\<dots> = (([?n ..< ?n + length (List.map_filter (virtualenv_at h)
              (before_error (virtualenv_error h) (path # paths)))],
           first_error (virtualenv_error h) (path # paths)),
          w\<lparr>spawned := spawned w
              @ virtualenv_probes h (through_error (virtualenv_error h) (path # paths)),
            heap := heap w @ List.map_filter (virtualenv_at h)
              (before_error (virtualenv_error h) (path # paths))\<rparr>)"
        using True by (simp add: some ok map_filter_simps scan_simps virtualenv_probes_Cons)
      finally show ?thesis .
    qed
  qed
qed

lemma deref_append_new:
  assumes "heap w' = heap w @ objs"
  shows "map (deref w') [length (heap w) ..< length (heap w) + length objs] = map Some objs"
proof (rule nth_equalityI)
  show "length (map (deref w') [length (heap w) ..< length (heap w) + length objs])
      = length (map Some objs)" by simp
next
  fix i assume "i < length (map (deref w') [length (heap w) ..< length (heap w) + length objs])"
  then have i: "i < length objs" by simp
  then show "map (deref w') [length (heap w) ..< length (heap w) + length objs] ! i
      = map Some objs ! i"
    by (simp add: deref_def assms nth_append)
qed

lemma new_Environment_failed:
  "probe_result h exe = Inl e \<Longrightarrow>
   new_Environment h w path exe = (Inl e, log_probe w exe)"
  by (simp add: new_Environment_eq)

lemma new_Environment_created:
  "probe_result h exe = Inr v \<Longrightarrow>
   new_Environment h w path exe
     = (Inr (length (heap w)), (log_probe w exe)\<lparr>heap := heap w @ [Environment path exe v None]\<rparr>)"
  by (simp add: new_Environment_eq)

lemma probed_object_Environment:
  "probe_result h exe = Inr v \<Longrightarrow> probed_object h (Environment path exe v memo)"
  by (simp add: probe_result_nonneg)

lemma holds_probed_version_new:
  assumes "heap w' = heap w @ objs" and "list_all (probed_object h) objs"
    and "r \<in> set [length (heap w) ..< length (heap w) + length objs]"
  shows "holds_probed_version h w' r"
proof -
  from assms(3) have r: "length (heap w) \<le> r" "r - length (heap w) < length objs" by auto
  then have "r < length (heap w')" by (simp add: assms(1))
  moreover from r have "heap w' ! r = objs ! (r - length (heap w))"
    by (simp add: assms(1) nth_append)
  ultimately have "deref w' r = Some (objs ! (r - length (heap w)))"
    by (simp add: deref_def)
  moreover from assms(2) r(2) have "probed_object h (objs ! (r - length (heap w)))"
    by (simp add: list_all_length)
  ultimately show ?thesis by (simp add: holds_probed_version_def)
qed

section \<open>Discovery in directories\<close>

lemma find_virtualenvs_eq:
  assumes "ps = (case paths of None \<Rightarrow> [] | Some ps \<Rightarrow> ps)"
  shows "find_virtualenvs h w paths =
     (([length (heap w) ..< length (heap w)
          + length (List.map_filter (virtualenv_at h) (before_error (virtualenv_error h) ps))],
       first_error (virtualenv_error h) ps),
      w\<lparr>spawned := spawned w @ virtualenv_probes h (through_error (virtualenv_error h) ps),
        heap := heap w
          @ List.map_filter (virtualenv_at h) (before_error (virtualenv_error h) ps)\<rparr>)"
  unfolding find_virtualenvs_def assms by (rule find_virtualenvs_loop_eq)

lemma demo_venv_probe: "probe_result demo_host ''/venv/bin/python'' = Inr (VersionInfo 3 6 5)"
  by (simp add: probe_eval host_eval)

lemma demo_broken_probe: "probe_result demo_host ''/broken/bin/python'' = Inl InvalidPythonEnvironment"
  by (simp add: probe_eval host_eval)

lemma demo_virtualenv_errors:
  "virtualenv_error demo_host ''/half'' = None"
  "virtualenv_error demo_host ''/venv'' = None"
  "virtualenv_error demo_host ''/broken'' = None"
  "virtualenv_error demo_host ''/huge'' = Some ValueError"
  by (simp_all add: virtualenv_error_def demo_host_fields activate_path_def python_path_def
      path_join_def demo_venv_probe demo_broken_probe demo_huge_probe)

lemma demo_virtualenvs:
  "virtualenv_at demo_host ''/half'' = None"
  "virtualenv_at demo_host ''/venv''
     = Some (Environment ''/venv'' ''/venv/bin/python'' (VersionInfo 3 6 5) None)"
  "virtualenv_at demo_host ''/broken'' = None"
  by (simp_all add: virtualenv_at_def demo_host_fields activate_path_def python_path_def
      path_join_def demo_venv_probe demo_broken_probe)

text \<open>
  C5 says that \<open>find_virtualenvs\<close> never raises. On the example host, whose interpreter
  limits integer string conversion to 4300 digits, \<open>/huge\<close> has both files and its
  interpreter prints a major version of 4301 digits: \<open>int\<close> raises \<open>ValueError\<close>, which
  \<open>except InvalidPythonEnvironment\<close> does not catch. The iteration over \<open>/venv\<close>,
  \<open>/huge\<close>, \<open>/venv\<close> yields one environment and ends with that exception.
\<close>

theorem find_virtualenvs_can_raise_ValueError:
  "fst (find_virtualenvs demo_host empty_world (Some [''/venv'', ''/huge'', ''/venv'']))
     = ([0], Some ValueError)"
  by (simp add: find_virtualenvs_eq [OF refl] scan_simps demo_virtualenv_errors
      demo_virtualenvs map_filter_simps empty_world_def)

text \<open>
  C5, amended. For every list of paths (and for no list at all), \<open>find_virtualenvs\<close>
  never raises \<open>InvalidPythonEnvironment\<close>: it ends normally or with the \<open>ValueError\<close>
  of the first candidate that has both files and whose probe raises one, and it goes
  through the candidates in order up to there. The references it yields are new objects,
  in order, and they are exactly the environments of the valid candidates gone through:
  a candidate without both files, or whose probe raises \<open>InvalidPythonEnvironment\<close>,
  contributes nothing. When no candidate's probe raises \<open>ValueError\<close>, it ends normally
  and all candidates are gone through.
\<close>

theorem find_virtualenvs_yields_the_valid_candidates:
  "\<exists>refs w'.
     find_virtualenvs h w paths
       = ((refs, first_error (virtualenv_error h) (case paths of None \<Rightarrow> [] | Some ps \<Rightarrow> ps)), w') \<and>
     refs = [length (heap w) ..< length (heap w')] \<and>
     map (deref w') refs
       = map Some (List.map_filter (virtualenv_at h)
           (before_error (virtualenv_error h) (case paths of None \<Rightarrow> [] | Some ps \<Rightarrow> ps))) \<and>
     (first_error (virtualenv_error h) (case paths of None \<Rightarrow> [] | Some ps \<Rightarrow> ps) = None
       \<or> first_error (virtualenv_error h) (case paths of None \<Rightarrow> [] | Some ps \<Rightarrow> ps)
           = Some ValueError) \<and>
     (list_all (\<lambda>path. virtualenv_error h path = None) (case paths of None \<Rightarrow> [] | Some ps \<Rightarrow> ps)
       \<longrightarrow> first_error (virtualenv_error h) (case paths of None \<Rightarrow> [] | Some ps \<Rightarrow> ps) = None
         \<and> before_error (virtualenv_error h) (case paths of None \<Rightarrow> [] | Some ps \<Rightarrow> ps)
             = (case paths of None \<Rightarrow> [] | Some ps \<Rightarrow> ps))"
proof -
  define ps where "ps = (case paths of None \<Rightarrow> [] | Some ps \<Rightarrow> ps)"
  let ?objs = "List.map_filter (virtualenv_at h) (before_error (virtualenv_error h) ps)"
  let ?w' = "w\<lparr>spawned := spawned w @ virtualenv_probes h (through_error (virtualenv_error h) ps),
        heap := heap w @ ?objs\<rparr>"
  let ?refs = "[length (heap w) ..< length (heap w) + length ?objs]"
  have h': "heap ?w' = heap w @ ?objs" by simp
  have 1: "find_virtualenvs h w paths = ((?refs, first_error (virtualenv_error h) ps), ?w')"
    using ps_def by (rule find_virtualenvs_eq)
  have 2: "?refs = [length (heap w) ..< length (heap ?w')]" by simp
  have 3: "map (deref ?w') ?refs = map Some ?objs"
    using h' by (rule deref_append_new)
  have 4: "first_error (virtualenv_error h) ps = None
      \<or> first_error (virtualenv_error h) ps = Some ValueError"
    by (rule first_error_cases) (rule virtualenv_error_cases)
  have 5: "list_all (\<lambda>path. virtualenv_error h path = None) ps
      \<longrightarrow> first_error (virtualenv_error h) ps = None \<and> before_error (virtualenv_error h) ps = ps"
    using scan_without_error [of "virtualenv_error h" ps] by blast
  from 1 2 3 4 5 show ?thesis unfolding ps_def by (intro exI conjI)
qed

theorem find_virtualenvs_yields_the_valid_candidates_witness:
  "\<exists>r w'. find_virtualenvs demo_host empty_world (Some [''/half'', ''/venv'', ''/broken''])
       = (([r], None), w') \<and>
     deref w' r = Some (Environment ''/venv'' ''/venv/bin/python'' (VersionInfo 3 6 5) None)"
proof -
  have ok: "list_all (\<lambda>path. virtualenv_error demo_host path = None)
      [''/half'', ''/venv'', ''/broken'']"
    by (simp add: demo_virtualenv_errors)
  from find_virtualenvs_yields_the_valid_candidates
    [of demo_host empty_world "Some [''/half'', ''/venv'', ''/broken'']"]
  obtain refs w' where
    run: "find_virtualenvs demo_host empty_world (Some [''/half'', ''/venv'', ''/broken''])
       = ((refs, first_error (virtualenv_error demo_host) [''/half'', ''/venv'', ''/broken'']), w')"
    and objs: "map (deref w') refs
       = map Some (List.map_filter (virtualenv_at demo_host)
           (before_error (virtualenv_error demo_host) [''/half'', ''/venv'', ''/broken'']))"
    and all: "list_all (\<lambda>path. virtualenv_error demo_host path = None)
        [''/half'', ''/venv'', ''/broken'']
      \<longrightarrow> first_error (virtualenv_error demo_host) [''/half'', ''/venv'', ''/broken''] = None
        \<and> before_error (virtualenv_error demo_host) [''/half'', ''/venv'', ''/broken'']
            = [''/half'', ''/venv'', ''/broken'']"
    unfolding option.case by blast
  from all ok have none: "first_error (virtualenv_error demo_host)
        [''/half'', ''/venv'', ''/broken''] = None"
    and thru: "before_error (virtualenv_error demo_host) [''/half'', ''/venv'', ''/broken'']
        = [''/half'', ''/venv'', ''/broken'']"
    by blast+
  from objs have objs': "map (deref w') refs
       = [Some (Environment ''/venv'' ''/venv/bin/python'' (VersionInfo 3 6 5) None)]"
    unfolding thru by (simp add: map_filter_simps demo_virtualenvs)
  then obtain r where r: "refs = [r]" by (cases refs) auto
  from run have run': "find_virtualenvs demo_host empty_world
      (Some [''/half'', ''/venv'', ''/broken'']) = (([r], None), w')"
    unfolding none r .
  from objs' r have "deref w' r
      = Some (Environment ''/venv'' ''/venv/bin/python'' (VersionInfo 3 6 5) None)" by simp
  with run' show ?thesis by (intro exI conjI)
qed

section \<open>Discovery by version tag\<close>

lemma get_python_environment_eq:
  "get_python_environment h w python_name =
     (case find_executable h python_name of
        None \<Rightarrow> (Inl InvalidPythonEnvironment, w)
      | Some exe \<Rightarrow> new_Environment h w (dirname (dirname exe)) exe)"
  by (simp add: get_python_environment_def)

lemma find_python_environments_loop_eq:
  "find_python_environments_loop h w (current_version h) tags =
     (([length (heap w) ..< length (heap w)
          + length (List.map_filter (environment_for_tag h) (before_error (tag_error h) tags))],
       first_error (tag_error h) tags),
      w\<lparr>spawned := spawned w @ concat (map (probes_for_tag h) (through_error (tag_error h) tags)),
        heap := heap w
          @ List.map_filter (environment_for_tag h) (before_error (tag_error h) tags)\<rparr>)"
proof (induction tags arbitrary: w)
  case Nil
  show ?case by (simp add: map_filter_simps scan_simps)
next
  case (Cons tag tags)
  note IH = Cons.IH
  let ?n = "length (heap w)"
  let ?objs = "List.map_filter (environment_for_tag h) (before_error (tag_error h) tags)"
  let ?es = "concat (map (probes_for_tag h) (through_error (tag_error h) tags))"
  let ?goal = "find_python_environments_loop h w (current_version h) (tag # tags)
      = (([?n ..< ?n + length (List.map_filter (environment_for_tag h)
              (before_error (tag_error h) (tag # tags)))],
          first_error (tag_error h) (tag # tags)),
         w\<lparr>spawned := spawned w
             @ concat (map (probes_for_tag h) (through_error (tag_error h) (tag # tags))),
           heap := heap w @ List.map_filter (environment_for_tag h)
             (before_error (tag_error h) (tag # tags))\<rparr>)"
  have skip: ?goal
    if step: "find_python_environments_loop h w (current_version h) (tag # tags)
        = find_python_environments_loop h (w\<lparr>spawned := spawned w @ es\<rparr>) (current_version h) tags"
      and none: "environment_for_tag h tag = None" and ok: "tag_error h tag = None"
      and es: "probes_for_tag h tag = es"
    for es
    by (simp only: step IH) (simp add: none ok es map_filter_simps scan_simps)
  have stop: ?goal
    if step: "find_python_environments_loop h w (current_version h) (tag # tags)
        = (([], Some e), log_probe w exe)"
      and err: "tag_error h tag = Some e"
      and es: "probes_for_tag h tag = [Popen [exe, ''--version'']]"
    for e exe
    by (simp only: step) (simp add: err es map_filter_simps scan_simps log_probe_def)
  have take: ?goal
    if step: "find_python_environments_loop h w (current_version h) (tag # tags)
        = yield ?n (find_python_environments_loop h
            ((log_probe w exe)\<lparr>heap := heap w @ [obj]\<rparr>) (current_version h) tags)"
      and some: "environment_for_tag h tag = Some obj" and ok: "tag_error h tag = None"
      and es: "probes_for_tag h tag = [Popen [exe, ''--version'']]"
    for exe obj
  proof -
    let ?W = "w\<lparr>spawned := spawned w @ Popen [exe, ''--version''] # ?es,
                heap := heap w @ obj # ?objs\<rparr>"
    have ih: "find_python_environments_loop h ((log_probe w exe)\<lparr>heap := heap w @ [obj]\<rparr>)
          (current_version h) tags
        = (([Suc ?n ..< Suc ?n + length ?objs], first_error (tag_error h) tags), ?W)"
      by (simp add: IH log_probe_def)
    have "find_python_environments_loop h w (current_version h) (tag # tags)
        = (([?n ..< ?n + Suc (length ?objs)], first_error (tag_error h) tags), ?W)"
      by (simp only: step ih yield_eq)
    also have "\<dots> = (([?n ..< ?n + length (List.map_filter (environment_for_tag h)
              (before_error (tag_error h) (tag # tags)))],
          first_error (tag_error h) (tag # tags)),
         w\<lparr>spawned := spawned w
             @ concat (map (probes_for_tag h) (through_error (tag_error h) (tag # tags))),
           heap := heap w @ List.map_filter (environment_for_tag h)
             (before_error (tag_error h) (tag # tags))\<rparr>)"
      by (simp add: some ok es map_filter_simps scan_simps)
    finally show ?thesis .
  qed
  show ?case
  proof (cases "tag = current_version h")
    case True
    then have es: "probes_for_tag h tag = [Popen [sys_executable h, ''--version'']]"
      by (simp add: probes_for_tag_def)
    show ?thesis
    proof (cases "probe_result h (sys_executable h)")
      case (Inl e)
      show ?thesis
      proof (rule stop)
        show "find_python_environments_loop h w (current_version h) (tag # tags)
            = (([], Some e), log_probe w (sys_executable h))"
          using True by (simp add: get_default_environment_def new_Environment_failed [OF Inl])
        show "tag_error h tag = Some e"
          using True Inl by (simp add: tag_error_def)
        show "probes_for_tag h tag = [Popen [sys_executable h, ''--version'']]" by (rule es)
      qed
    next
      case (Inr v)
      show ?thesis
      proof (rule take)
        show "find_python_environments_loop h w (current_version h) (tag # tags)
          = yield ?n (find_python_environments_loop h
              ((log_probe w (sys_executable h))\<lparr>heap := heap w
                 @ [Environment (sys_prefix h) (sys_executable h) v None]\<rparr>) (current_version h) tags)"
          using True by (simp add: get_default_environment_def new_Environment_created [OF Inr])
        show "environment_for_tag h tag
            = Some (Environment (sys_prefix h) (sys_executable h) v None)"
          using True Inr by (simp add: environment_for_tag_def default_environment_object_def)
        show "tag_error h tag = None"
          using True Inr by (simp add: tag_error_def)
        show "probes_for_tag h tag = [Popen [sys_executable h, ''--version'']]" by (rule es)
      qed
    qed
  next
    case False
    show ?thesis
    proof (cases "find_executable h (''python'' @ tag)")
      case None
      show ?thesis
      proof (rule skip)
        show "find_python_environments_loop h w (current_version h) (tag # tags)
          = find_python_environments_loop h (w\<lparr>spawned := spawned w @ []\<rparr>) (current_version h) tags"
          using False None by (simp add: get_python_environment_eq)
        show "environment_for_tag h tag = None"
          using False None by (simp add: environment_for_tag_def python_environment_object_def)
        show "tag_error h tag = None"
          using False None by (simp add: tag_error_def)
        show "probes_for_tag h tag = []"
          using False None by (simp add: probes_for_tag_def)
      qed
    next
      case (Some exe)
      from False Some have es: "probes_for_tag h tag = [Popen [exe, ''--version'']]"
        by (simp add: probes_for_tag_def)
      show ?thesis
      proof (cases "probe_result h exe")
        case (Inl e)
        show ?thesis
        proof (cases "e = InvalidPythonEnvironment")
          case caught: True
          show ?thesis
          proof (rule skip)
            show "find_python_environments_loop h w (current_version h) (tag # tags)
              = find_python_environments_loop h
                  (w\<lparr>spawned := spawned w @ [Popen [exe, ''--version'']]\<rparr>)
                  (current_version h) tags"
              using False Some caught
              by (simp add: get_python_environment_eq new_Environment_failed [OF Inl] log_probe_def)
            show "environment_for_tag h tag = None"
              using False Some Inl
              by (simp add: environment_for_tag_def python_environment_object_def)
            show "tag_error h tag = None"
              using False Some Inl caught by (simp add: tag_error_def)
            show "probes_for_tag h tag = [Popen [exe, ''--version'']]" by (rule es)
          qed
        next
          case uncaught: False
          show ?thesis
          proof (rule stop)
            show "find_python_environments_loop h w (current_version h) (tag # tags)
                = (([], Some e), log_probe w exe)"
              using False Some uncaught
              by (simp add: get_python_environment_eq new_Environment_failed [OF Inl])
            show "tag_error h tag = Some e"
              using False Some Inl uncaught by (simp add: tag_error_def)
            show "probes_for_tag h tag = [Popen [exe, ''--version'']]" by (rule es)
          qed
        qed
      next
        case (Inr v)
        show ?thesis
        proof (rule take)
          show "find_python_environments_loop h w (current_version h) (tag # tags)
            = yield ?n (find_python_environments_loop h
                ((log_probe w exe)\<lparr>heap := heap w
                   @ [Environment (dirname (dirname exe)) exe v None]\<rparr>) (current_version h) tags)"
            using False Some
            by (simp add: get_python_environment_eq new_Environment_created [OF Inr])
          show "environment_for_tag h tag = Some (Environment (dirname (dirname exe)) exe v None)"
            using False Some Inr
            by (simp add: environment_for_tag_def python_environment_object_def)
          show "tag_error h tag = None"
            using False Some Inr by (simp add: tag_error_def)
          show "probes_for_tag h tag = [Popen [exe, ''--version'']]" by (rule es)
        qed
      qed
    qed
  qed
qed

lemma find_python_environments_eq:
  "find_python_environments h w =
     (([length (heap w) ..< length (heap w)
          + length (List.map_filter (environment_for_tag h)
              (before_error (tag_error h) SUPPORTED_PYTHONS))],
       first_error (tag_error h) SUPPORTED_PYTHONS),
      w\<lparr>spawned := spawned w
          @ concat (map (probes_for_tag h) (through_error (tag_error h) SUPPORTED_PYTHONS)),
        heap := heap w @ List.map_filter (environment_for_tag h)
          (before_error (tag_error h) SUPPORTED_PYTHONS)\<rparr>)"
proof -
  have "find_python_environments h w
      = find_python_environments_loop h w (current_version h) SUPPORTED_PYTHONS"
    by (simp add: find_python_environments_def current_version_def)
  with find_python_environments_loop_eq [of h w SUPPORTED_PYTHONS] show ?thesis by (simp only:)
qed

lemma tag_error_cases:
  "tag_error h tag = None \<or> tag_error h tag = Some InvalidPythonEnvironment
     \<or> tag_error h tag = Some ValueError"
  by (auto simp: tag_error_def split: sum.splits option.splits dest: probe_result_error)

lemma first_error_tag_cases:
  "first_error (tag_error h) tags = None
     \<or> first_error (tag_error h) tags = Some InvalidPythonEnvironment
     \<or> first_error (tag_error h) tags = Some ValueError"
proof (induction tags)
  case Nil
  show ?case by (simp add: scan_simps)
next
  case (Cons tag tags)
  from tag_error_cases [of h tag] Cons.IH show ?case by (auto simp: scan_simps)
qed

lemma demo_current_version: "current_version demo_host = ''3.6''"
  by (simp add: current_version_def demo_host_fields str_int_def str_nat_eval)

lemma demo_python27_probe: "probe_result demo_host ''/usr/bin/python2.7'' = Inr (VersionInfo 2 7 14)"
  by (simp add: probe_eval host_eval)

lemma dirname_usr_bin: "dirname (dirname ''/usr/bin/python2.7'') = ''/usr''"
  by (simp add: dirname_def)

lemma demo_tag_errors: "list_all (\<lambda>tag. tag_error demo_host tag = None) SUPPORTED_PYTHONS"
  by (simp add: SUPPORTED_PYTHONS_def tag_error_def demo_current_version demo_host_fields
      demo_python27_probe demo_default_probe)

lemma demo_tags:
  "List.map_filter (environment_for_tag demo_host) SUPPORTED_PYTHONS
     = [Environment ''/usr'' ''/usr/bin/python2.7'' (VersionInfo 2 7 14) None,
        Environment ''/usr'' ''/usr/bin/python3.6'' (VersionInfo 3 6 5) None]"
  by (simp add: SUPPORTED_PYTHONS_def map_filter_simps environment_for_tag_def
      demo_current_version python_environment_object_def default_environment_object_def
      demo_host_fields demo_python27_probe demo_default_probe dirname_usr_bin)

lemma demo_tag_probes:
  "concat (map (probes_for_tag demo_host) SUPPORTED_PYTHONS)
     = [Popen [''/usr/bin/python2.7'', ''--version''], Popen [''/usr/bin/python3.6'', ''--version'']]"
  by (simp add: SUPPORTED_PYTHONS_def probes_for_tag_def demo_current_version demo_host_fields)

lemma demo_find_python_environments:
  "find_python_environments demo_host empty_world =
     (([0, 1], None),
      \<lparr>spawned = [Popen [''/usr/bin/python2.7'', ''--version''],
                  Popen [''/usr/bin/python3.6'', ''--version'']],
       heap = [Environment ''/usr'' ''/usr/bin/python2.7'' (VersionInfo 2 7 14) None,
               Environment ''/usr'' ''/usr/bin/python3.6'' (VersionInfo 3 6 5) None]\<rparr>)"
  unfolding find_python_environments_eq
  by (simp add: scan_without_error [OF demo_tag_errors] demo_tags demo_tag_probes
      empty_world_def upt_conv_Cons)

text \<open>
  C7 says that for the host's own tag the default environment is yielded without probing
  again a version that is already known. On the example host, whose own tag is \<open>3.6\<close>,
  the iteration runs \<open>/usr/bin/python3.6 --version\<close>, the probe of \<open>sys.executable\<close>.
\<close>

theorem host_tag_is_probed_like_any_other:
  "current_version demo_host = ''3.6'' \<and>
   sys_executable demo_host = ''/usr/bin/python3.6'' \<and>
   fst (find_python_environments demo_host empty_world) = ([0, 1], None) \<and>
   spawned (snd (find_python_environments demo_host empty_world))
     = [Popen [''/usr/bin/python2.7'', ''--version''],
        Popen [''/usr/bin/python3.6'', ''--version'']]"
  by (simp add: demo_find_python_environments demo_current_version demo_host_fields)

text \<open>
  C7, amended. \<open>find_python_environments\<close> goes through the fixed list of tags in order.
  For the tag of the running interpreter it yields \<open>get_default_environment()\<close>, a new
  \<open>Environment\<close> for \<open>sys.prefix\<close> and \<open>sys.executable\<close>, whose construction probes
  \<open>sys.executable\<close> like any other executable. For every other tag it looks up
  \<open>'python' + tag\<close> with \<open>find_executable\<close>, builds an \<open>Environment\<close> whose base
  path is the directory two levels above the executable found, and skips the tag when
  nothing is found or the probe raises \<open>InvalidPythonEnvironment\<close>. The iteration ends
  at the first tag, if any, that raises an exception nobody catches: for the host's own
  tag, whose call is outside the \<open>try\<close>, whatever the probe of \<open>sys.executable\<close> raises;
  for another tag a \<open>ValueError\<close> from the probe. That exception is
  \<open>InvalidPythonEnvironment\<close> or \<open>ValueError\<close>; the tags before it have been yielded or
  skipped, the probe of that tag has run, and the later tags are not looked at. When no
  tag raises, the iteration ends normally and all tags are gone through.
\<close>

theorem find_python_environments_by_tag:
  "\<exists>refs w'.
     find_python_environments h w = ((refs, first_error (tag_error h) SUPPORTED_PYTHONS), w') \<and>
     refs = [length (heap w) ..< length (heap w')] \<and>
     map (deref w') refs
       = map Some (List.map_filter (environment_for_tag h)
           (before_error (tag_error h) SUPPORTED_PYTHONS)) \<and>
     spawned w' = spawned w
       @ concat (map (probes_for_tag h) (through_error (tag_error h) SUPPORTED_PYTHONS)) \<and>
     (first_error (tag_error h) SUPPORTED_PYTHONS = None
       \<or> first_error (tag_error h) SUPPORTED_PYTHONS = Some InvalidPythonEnvironment
       \<or> first_error (tag_error h) SUPPORTED_PYTHONS = Some ValueError) \<and>
     (list_all (\<lambda>tag. tag_error h tag = None) SUPPORTED_PYTHONS \<longrightarrow>
        first_error (tag_error h) SUPPORTED_PYTHONS = None \<and>
        before_error (tag_error h) SUPPORTED_PYTHONS = SUPPORTED_PYTHONS \<and>
        through_error (tag_error h) SUPPORTED_PYTHONS = SUPPORTED_PYTHONS)"
proof -
  let ?objs = "List.map_filter (environment_for_tag h)
      (before_error (tag_error h) SUPPORTED_PYTHONS)"
  let ?w' = "w\<lparr>spawned := spawned w
          @ concat (map (probes_for_tag h) (through_error (tag_error h) SUPPORTED_PYTHONS)),
        heap := heap w @ ?objs\<rparr>"
  let ?refs = "[length (heap w) ..< length (heap w) + length ?objs]"
  have h': "heap ?w' = heap w @ ?objs" by simp
  have 1: "find_python_environments h w
      = ((?refs, first_error (tag_error h) SUPPORTED_PYTHONS), ?w')"
    by (rule find_python_environments_eq)
  have 2: "?refs = [length (heap w) ..< length (heap ?w')]" by simp
  have 3: "map (deref ?w') ?refs = map Some ?objs"
    using h' by (rule deref_append_new)
  have 4: "spawned ?w' = spawned w
      @ concat (map (probes_for_tag h) (through_error (tag_error h) SUPPORTED_PYTHONS))" by simp
  note 5 = first_error_tag_cases [of h SUPPORTED_PYTHONS]
  have 6: "list_all (\<lambda>tag. tag_error h tag = None) SUPPORTED_PYTHONS \<longrightarrow>
        first_error (tag_error h) SUPPORTED_PYTHONS = None \<and>
        before_error (tag_error h) SUPPORTED_PYTHONS = SUPPORTED_PYTHONS \<and>
        through_error (tag_error h) SUPPORTED_PYTHONS = SUPPORTED_PYTHONS"
    using scan_without_error [of "tag_error h" SUPPORTED_PYTHONS] by blast
  from 1 2 3 4 5 6 show ?thesis by (intro exI conjI)
qed

theorem find_python_environments_by_tag_witness:
  "\<exists>refs w'. find_python_environments demo_host empty_world = ((refs, None), w') \<and>
     map (deref w') refs
       = [Some (Environment ''/usr'' ''/usr/bin/python2.7'' (VersionInfo 2 7 14) None),
          Some (Environment ''/usr'' ''/usr/bin/python3.6'' (VersionInfo 3 6 5) None)] \<and>
     spawned w' = [Popen [''/usr/bin/python2.7'', ''--version''],
                   Popen [''/usr/bin/python3.6'', ''--version'']]"
proof -
  from find_python_environments_by_tag [of demo_host empty_world]
  obtain refs w' where
    1: "find_python_environments demo_host empty_world
       = ((refs, first_error (tag_error demo_host) SUPPORTED_PYTHONS), w')" and
    2: "map (deref w') refs
       = map Some (List.map_filter (environment_for_tag demo_host)
           (before_error (tag_error demo_host) SUPPORTED_PYTHONS))" and
    3: "spawned w' = spawned empty_world
       @ concat (map (probes_for_tag demo_host)
           (through_error (tag_error demo_host) SUPPORTED_PYTHONS))" and
    4: "list_all (\<lambda>tag. tag_error demo_host tag = None) SUPPORTED_PYTHONS \<longrightarrow>
        first_error (tag_error demo_host) SUPPORTED_PYTHONS = None \<and>
        before_error (tag_error demo_host) SUPPORTED_PYTHONS = SUPPORTED_PYTHONS \<and>
        through_error (tag_error demo_host) SUPPORTED_PYTHONS = SUPPORTED_PYTHONS"
    by blast
  from 4 demo_tag_errors have
    none: "first_error (tag_error demo_host) SUPPORTED_PYTHONS = None" and
    before: "before_error (tag_error demo_host) SUPPORTED_PYTHONS = SUPPORTED_PYTHONS" and
    through: "through_error (tag_error demo_host) SUPPORTED_PYTHONS = SUPPORTED_PYTHONS"
    by blast+
  from 1 have run: "find_python_environments demo_host empty_world = ((refs, None), w')"
    unfolding none .
  from 2 have objs: "map (deref w') refs
       = [Some (Environment ''/usr'' ''/usr/bin/python2.7'' (VersionInfo 2 7 14) None),
          Some (Environment ''/usr'' ''/usr/bin/python3.6'' (VersionInfo 3 6 5) None)]"
    unfolding before demo_tags by simp
  from 3 have evs: "spawned w' = [Popen [''/usr/bin/python2.7'', ''--version''],
                   Popen [''/usr/bin/python3.6'', ''--version'']]"
    unfolding through demo_tag_probes by (simp add: empty_world_def)
  from run objs evs show ?thesis by (intro exI conjI)
qed

text \<open>
  When the host's own tag is in the list and the probe of \<open>sys.executable\<close> fails, the
  iteration ends with an exception: the one that probe raises, outside the \<open>try\<close>, when
  no tag before the host's own has raised.
\<close>

lemma find_python_environments_default_probe_failure:
  assumes "probe_result h (sys_executable h) = Inl e"
    and "current_version h \<in> set SUPPORTED_PYTHONS"
  shows "(\<exists>e'. snd (fst (find_python_environments h w)) = Some e') \<and>
     (first_error (tag_error h) (takeWhile (\<lambda>tag. tag \<noteq> current_version h) SUPPORTED_PYTHONS)
        = None \<longrightarrow> snd (fst (find_python_environments h w)) = Some e)"
proof -
  from assms(1) have err: "tag_error h (current_version h) = Some e"
    by (simp add: tag_error_def)
  have split: "first_error f xs = Some e'"
    if "x \<in> set xs" and "f x = Some e'"
      and "first_error f (takeWhile (\<lambda>y. y \<noteq> x) xs) = None"
    for f :: "string \<Rightarrow> error option" and xs x e'
    using that by (induction xs) (auto simp: scan_simps split: option.splits if_splits)
  from first_error_at [where f = "tag_error h", OF assms(2) err]
  have 1: "\<exists>e'. snd (fst (find_python_environments h w)) = Some e'"
    by (simp add: find_python_environments_eq)
  have 2: "first_error (tag_error h)
        (takeWhile (\<lambda>tag. tag \<noteq> current_version h) SUPPORTED_PYTHONS) = None
      \<longrightarrow> snd (fst (find_python_environments h w)) = Some e"
    using split [where f = "tag_error h", OF assms(2) err] by (simp add: find_python_environments_eq)
  from 1 2 show ?thesis by (rule conjI)
qed

theorem find_python_environments_default_probe_failure_witness:
  "snd (fst (find_python_environments (demo_host\<lparr>sys_executable := ''/broken/bin/python''\<rparr>)
      empty_world)) = Some InvalidPythonEnvironment"
proof -
  let ?h = "demo_host\<lparr>sys_executable := ''/broken/bin/python''\<rparr>"
  have "probe_result ?h ''/broken/bin/python'' = Inl InvalidPythonEnvironment"
    by (simp add: probe_eval host_eval)
  then have 1: "probe_result ?h (sys_executable ?h) = Inl InvalidPythonEnvironment" by simp
  have cur: "current_version ?h = ''3.6''"
    by (simp add: current_version_def demo_host_fields str_int_def str_nat_eval)
  then have 2: "current_version ?h \<in> set SUPPORTED_PYTHONS"
    by (simp add: SUPPORTED_PYTHONS_def)
  have "probe_result ?h ''/usr/bin/python2.7'' = Inr (VersionInfo 2 7 14)"
    by (simp add: probe_eval host_eval)
  then have 3: "first_error (tag_error ?h)
      (takeWhile (\<lambda>tag. tag \<noteq> current_version ?h) SUPPORTED_PYTHONS) = None"
    by (simp add: cur SUPPORTED_PYTHONS_def scan_simps tag_error_def demo_host_fields)
  from find_python_environments_default_probe_failure [OF 1 2, of empty_world] 3
  show ?thesis by blast
qed

section \<open>Every environment holds a probed version\<close>

lemma holds_probed_version_last:
  assumes "probed_object h obj" and "heap w' = heap w @ [obj]"
  shows "holds_probed_version h w' (length (heap w))"
  using assms by (simp add: holds_probed_version_def deref_def)

lemma new_Environment_constructs: "constructs_probed h w (new_Environment h w path exe)"
proof (cases "probe_result h exe")
  case (Inl e)
  from probe_result_error [OF Inl] show ?thesis
    by (simp add: new_Environment_failed [OF Inl] constructs_probed_def heap_log_probe)
next
  case (Inr v)
  let ?w' = "(log_probe w exe)\<lparr>heap := heap w @ [Environment path exe v None]\<rparr>"
  have "holds_probed_version h ?w' (length (heap w))"
    by (rule holds_probed_version_last [OF probed_object_Environment [OF Inr]]) simp
  then show ?thesis
    by (simp add: new_Environment_created [OF Inr] constructs_probed_def)
qed

lemma constructs_probed_raise: "constructs_probed h w (Inl InvalidPythonEnvironment, w)"
  by (simp add: constructs_probed_def)

lemma create_environment_constructs: "constructs_probed h w (create_environment h w path)"
  by (simp add: create_environment_def get_executable_path_eq new_Environment_constructs
      constructs_probed_raise)

lemma get_default_environment_constructs: "constructs_probed h w (get_default_environment h w)"
  by (simp add: get_default_environment_def new_Environment_constructs)

lemma get_python_environment_constructs:
  "constructs_probed h w (get_python_environment h w python_name)"
  by (simp add: get_python_environment_eq new_Environment_constructs constructs_probed_raise
      split: option.splits)

lemma yields_probed_new:
  assumes "heap w' = heap w @ objs" and "list_all (probed_object h) objs"
  shows "yields_probed h w (([length (heap w) ..< length (heap w) + length objs], err), w')"
proof -
  have "list_all (holds_probed_version h w') [length (heap w) ..< length (heap w) + length objs]"
    unfolding list_all_iff using holds_probed_version_new [OF assms] by blast
  then show ?thesis by (simp add: yields_probed_def assms(1))
qed

lemma virtualenv_at_probed: "virtualenv_at h path = Some obj \<Longrightarrow> probed_object h obj"
  by (auto simp: virtualenv_at_def probe_result_nonneg split: if_splits sum.splits)

lemma map_filter_all:
  "(\<And>x y. f x = Some y \<Longrightarrow> P y) \<Longrightarrow> list_all P (List.map_filter f xs)"
  by (induction xs) (auto simp: map_filter_simps split: option.splits)

lemma find_virtualenvs_yields: "yields_probed h w (find_virtualenvs h w paths)"
  unfolding find_virtualenvs_eq [OF refl]
  by (rule yields_probed_new) (simp_all add: map_filter_all virtualenv_at_probed)

text \<open>
  \<open>find_python_environments\<close> may end with an exception; what it yielded before is
  still a list of new, probed objects.
\<close>

lemma constructs_probed_cases:
  assumes "constructs_probed h w (res, w1)"
  obtains (raised) e where "res = Inl e" "heap w1 = heap w"
    | (created) obj where "res = Inr (length (heap w))" "heap w1 = heap w @ [obj]"
        "probed_object h obj"
proof (cases res)
  case (Inl e)
  with assms show ?thesis by (auto simp: constructs_probed_def intro: raised)
next
  case (Inr r)
  with assms have r: "r = length (heap w)" and len: "length (heap w1) = Suc (length (heap w))"
    and pre: "take (length (heap w)) (heap w1) = heap w"
    and hp: "holds_probed_version h w1 r"
    by (auto simp: constructs_probed_def)
  from len pre have "heap w1 = heap w @ [heap w1 ! length (heap w)]"
    by (metis lessI take_Suc_conv_app_nth take_all order_refl)
  moreover from hp r len have "probed_object h (heap w1 ! length (heap w))"
    by (simp add: holds_probed_version_def deref_def)
  ultimately show ?thesis using Inr r by (intro created) simp_all
qed

lemma loop_objects_yield:
  assumes "heap w1 = heap w @ [obj]" and "probed_object h obj"
    and "\<exists>objs. rest = (([length (heap w1) ..< length (heap w1) + length objs], err), w') \<and>
          heap w' = heap w1 @ objs \<and> list_all (probed_object h) objs"
  shows "\<exists>objs. yield (length (heap w)) rest
      = (([length (heap w) ..< length (heap w) + length objs], err), w') \<and>
          heap w' = heap w @ objs \<and> list_all (probed_object h) objs"
proof -
  from assms(3) obtain objs where
    rest: "rest = (([length (heap w1) ..< length (heap w1) + length objs], err), w')" and
    h': "heap w' = heap w1 @ objs" and all: "list_all (probed_object h) objs" by blast
  from rest have "rest = (([Suc (length (heap w)) ..< Suc (length (heap w)) + length objs], err), w')"
    by (simp add: assms(1))
  then have "yield (length (heap w)) rest
      = (([length (heap w) ..< length (heap w) + Suc (length objs)], err), w')"
    by (simp only: yield_eq)
  then have "yield (length (heap w)) rest
      = (([length (heap w) ..< length (heap w) + length (obj # objs)], err), w')"
    by simp
  moreover have "heap w' = heap w @ obj # objs" by (simp add: h' assms(1))
  moreover have "list_all (probed_object h) (obj # objs)" by (simp add: all assms(2))
  ultimately show ?thesis by blast
qed

lemma find_python_environments_loop_objects:
  "\<exists>objs err w'. find_python_environments_loop h w cur tags
      = (([length (heap w) ..< length (heap w) + length objs], err), w') \<and>
     heap w' = heap w @ objs \<and> list_all (probed_object h) objs"
proof (induction tags arbitrary: w)
  case Nil
  have "find_python_environments_loop h w cur []
      = (([length (heap w) ..< length (heap w) + length ([] :: pyobject list)], None), w) \<and>
     heap w = heap w @ [] \<and> list_all (probed_object h) []" by simp
  then show ?case by blast
next
  case (Cons tag tags)
  have stop: ?case
    if "find_python_environments_loop h w cur (tag # tags) = (([], Some e), w1)"
      and "heap w1 = heap w" for e w1
  proof -
    from that have "find_python_environments_loop h w cur (tag # tags)
      = (([length (heap w) ..< length (heap w) + length ([] :: pyobject list)], Some e), w1) \<and>
     heap w1 = heap w @ [] \<and> list_all (probed_object h) []" by simp
    then show ?thesis by blast
  qed
  have skip: ?case
    if "find_python_environments_loop h w cur (tag # tags)
        = find_python_environments_loop h w1 cur tags" and "heap w1 = heap w" for w1
    using Cons.IH [of w1] that by simp
  have take: ?case
    if step: "find_python_environments_loop h w cur (tag # tags)
        = yield (length (heap w)) (find_python_environments_loop h w1 cur tags)"
      and w1: "heap w1 = heap w @ [obj]" and obj: "probed_object h obj" for w1 obj
  proof -
    from Cons.IH [of w1] obtain objs err w' where
      "find_python_environments_loop h w1 cur tags
        = (([length (heap w1) ..< length (heap w1) + length objs], err), w') \<and>
       heap w' = heap w1 @ objs \<and> list_all (probed_object h) objs" by blast
    then have "\<exists>objs. find_python_environments_loop h w1 cur tags
        = (([length (heap w1) ..< length (heap w1) + length objs], err), w') \<and>
       heap w' = heap w1 @ objs \<and> list_all (probed_object h) objs" by blast
    from loop_objects_yield [OF w1 obj this] show ?thesis unfolding step by blast
  qed
  show ?case
  proof (cases "tag = cur")
    case True
    obtain res w1 where r: "get_default_environment h w = (res, w1)"
      by (cases "get_default_environment h w")
    with get_default_environment_constructs [of h w]
    have "constructs_probed h w (res, w1)" by simp
    then show ?thesis
    proof (cases rule: constructs_probed_cases)
      case (raised e)
      from r True raised(1) have "find_python_environments_loop h w cur (tag # tags)
          = (([], Some e), w1)" by simp
      then show ?thesis using raised(2) by (rule stop)
    next
      case (created obj)
      from r True created(1) have "find_python_environments_loop h w cur (tag # tags)
          = yield (length (heap w)) (find_python_environments_loop h w1 cur tags)" by simp
      then show ?thesis using created(2,3) by (rule take)
    qed
  next
    case False
    obtain res w1 where r: "get_python_environment h w (''python'' @ tag) = (res, w1)"
      by (cases "get_python_environment h w (''python'' @ tag)")
    with get_python_environment_constructs [of h w "''python'' @ tag"]
    have "constructs_probed h w (res, w1)" by simp
    then show ?thesis
    proof (cases rule: constructs_probed_cases)
      case (raised e)
      show ?thesis
      proof (cases "e = InvalidPythonEnvironment")
        case True
        with r False raised(1) have "find_python_environments_loop h w cur (tag # tags)
            = find_python_environments_loop h w1 cur tags" by simp
        then show ?thesis using raised(2) by (rule skip)
      next
        case uncaught: False
        with r False raised(1) have "find_python_environments_loop h w cur (tag # tags)
            = (([], Some e), w1)" by simp
        then show ?thesis using raised(2) by (rule stop)
      qed
    next
      case (created obj)
      from r False created(1) have "find_python_environments_loop h w cur (tag # tags)
          = yield (length (heap w)) (find_python_environments_loop h w1 cur tags)" by simp
      then show ?thesis using created(2,3) by (rule take)
    qed
  qed
qed

lemma find_python_environments_yields: "yields_probed h w (find_python_environments h w)"
proof -
  have eq: "find_python_environments h w
      = find_python_environments_loop h w (current_version h) SUPPORTED_PYTHONS"
    by (simp add: find_python_environments_def current_version_def)
  from find_python_environments_loop_objects [of h w "current_version h" SUPPORTED_PYTHONS]
  obtain objs err w' where
    run: "find_python_environments_loop h w (current_version h) SUPPORTED_PYTHONS
      = (([length (heap w) ..< length (heap w) + length objs], err), w')" and
    h': "heap w' = heap w @ objs" and all: "list_all (probed_object h) objs" by blast
  show ?thesis unfolding eq run by (rule yields_probed_new [OF h' all])
qed

lemma demo_create_venv:
  "create_environment demo_host empty_world ''/venv''
     = (Inr 0, \<lparr>spawned = [Popen [''/venv/bin/python'', ''--version'']],
                heap = [Environment ''/venv'' ''/venv/bin/python'' (VersionInfo 3 6 5) None]\<rparr>)"
proof -
  have "get_executable_path demo_host ''/venv'' = Inr ''/venv/bin/python''"
    by (simp add: get_executable_path_eq demo_host_fields activate_path_def python_path_def
        path_join_def)
  then show ?thesis
    by (simp add: create_environment_def new_Environment_created [OF demo_venv_probe]
        log_probe_def empty_world_def)
qed

lemma demo_create_broken:
  "create_environment demo_host empty_world ''/broken''
     = (Inl InvalidPythonEnvironment,
        \<lparr>spawned = [Popen [''/broken/bin/python'', ''--version'']], heap = []\<rparr>)"
proof -
  have "get_executable_path demo_host ''/broken'' = Inr ''/broken/bin/python''"
    by (simp add: get_executable_path_eq demo_host_fields activate_path_def python_path_def
        path_join_def)
  then show ?thesis
    by (simp add: create_environment_def new_Environment_failed [OF demo_broken_probe]
        log_probe_def empty_world_def)
qed

lemma demo_create_huge:
  "create_environment demo_host empty_world ''/huge''
     = (Inl ValueError, \<lparr>spawned = [Popen [''/huge/bin/python'', ''--version'']], heap = []\<rparr>)"
proof -
  have "get_executable_path demo_host ''/huge'' = Inr ''/huge/bin/python''"
    by (simp add: get_executable_path_eq demo_host_fields activate_path_def python_path_def
        path_join_def)
  then show ?thesis
    by (simp add: create_environment_def new_Environment_failed [OF demo_huge_probe]
        log_probe_def empty_world_def)
qed

text \<open>
  C10 says that a probe failure raises \<open>InvalidPythonEnvironment\<close>. The constructor
  called with an executable name that has an embedded null byte raises the
  \<open>ValueError\<close> of \<open>Popen\<close>, and \<open>create_environment\<close> on the directory \<open>/huge\<close> of the
  example host raises the \<open>ValueError\<close> of \<open>int\<close>; in both cases no object is created.
\<close>

theorem construction_can_raise_ValueError:
  "new_Environment demo_host empty_world ''/x'' (''py'' @ [CHR 0x00] @ ''thon'')
     = (Inl ValueError,
        \<lparr>spawned = [Popen [''py'' @ [CHR 0x00] @ ''thon'', ''--version'']], heap = []\<rparr>) \<and>
   create_environment demo_host empty_world ''/huge''
     = (Inl ValueError, \<lparr>spawned = [Popen [''/huge/bin/python'', ''--version'']], heap = []\<rparr>) \<and>
   ValueError \<noteq> InvalidPythonEnvironment"
proof -
  have "new_Environment demo_host empty_world ''/x'' (''py'' @ [CHR 0x00] @ ''thon'')
     = (Inl ValueError,
        \<lparr>spawned = [Popen [''py'' @ [CHR 0x00] @ ''thon'', ''--version'']], heap = []\<rparr>)"
    using new_Environment_failed [OF demo_nul_probe, of demo_host empty_world "''/x''"]
    by (simp add: log_probe_def empty_world_def)
  with demo_create_huge show ?thesis by simp
qed

text \<open>
  C10, amended. Whatever constructs an \<open>Environment\<close> (the constructor itself,
  \<open>create_environment\<close>, \<open>get_default_environment\<close>, \<open>get_python_environment\<close>, and
  the two discovery functions), every reference it hands out names a new
  \<open>Environment\<close> whose \<open>version_info\<close> is the triple the probe of its executable
  returned, with non-negative components. The constructor raises exactly what the probe
  raises; a failed construction raises \<open>InvalidPythonEnvironment\<close> or \<open>ValueError\<close>,
  and the heap then holds no new object.
\<close>

theorem constructed_environments_hold_a_probed_version:
  "constructs_probed h w (new_Environment h w path exe) \<and>
   (fst (new_Environment h w path exe) = Inl e \<longleftrightarrow> fst (get_version h w exe) = Inl e) \<and>
   constructs_probed h w (create_environment h w path) \<and>
   constructs_probed h w (get_default_environment h w) \<and>
   constructs_probed h w (get_python_environment h w python_name) \<and>
   yields_probed h w (find_virtualenvs h w paths) \<and>
   yields_probed h w (find_python_environments h w)"
proof -
  have "fst (new_Environment h w path exe) = Inl e \<longleftrightarrow> fst (get_version h w exe) = Inl e"
    by (simp add: new_Environment_eq get_version_fst split: sum.splits)
  then show ?thesis
    by (intro conjI new_Environment_constructs create_environment_constructs
        get_default_environment_constructs get_python_environment_constructs
        find_virtualenvs_yields find_python_environments_yields)
qed

theorem constructed_environments_hold_a_probed_version_witness:
  "holds_probed_version demo_host
     \<lparr>spawned = [Popen [''/venv/bin/python'', ''--version'']],
      heap = [Environment ''/venv'' ''/venv/bin/python'' (VersionInfo 3 6 5) None]\<rparr> 0 \<and>
   constructs_probed demo_host empty_world
     (Inl InvalidPythonEnvironment,
      \<lparr>spawned = [Popen [''/broken/bin/python'', ''--version'']], heap = []\<rparr>) \<and>
   constructs_probed demo_host empty_world
     (Inl ValueError, \<lparr>spawned = [Popen [''/huge/bin/python'', ''--version'']], heap = []\<rparr>)"
  using constructed_environments_hold_a_probed_version
      [of demo_host empty_world "''/venv''" "''/venv/bin/python''" InvalidPythonEnvironment
          "''python2.7''" None]
    constructed_environments_hold_a_probed_version
      [of demo_host empty_world "''/broken''" "''/broken/bin/python''" InvalidPythonEnvironment
          "''python2.7''" None]
    constructed_environments_hold_a_probed_version
      [of demo_host empty_world "''/huge''" "''/huge/bin/python''" ValueError
          "''python2.7''" None]
  unfolding demo_create_venv demo_create_broken demo_create_huge
  by (simp add: constructs_probed_def)

section \<open>Memoized accesses\<close>

lemma read_version_info_Environment:
  "deref w r = Some (Environment path exe v memo) \<Longrightarrow> read_version_info w r = Some v"
  by (simp add: read_version_info_def)

lemma run_accesses_cached:
  assumes "deref w r = Some (Environment path exe v (Some p))"
  shows "run_accesses h w r as = Some (map (observe v p) as, w)"
proof (induction as)
  case Nil
  show ?case by simp
next
  case (Cons a as)
  then show ?case
    by (cases a)
      (simp_all add: read_version_info_Environment [OF assms] get_sys_path_cached [OF assms])
qed

lemma get_sys_path_unset:
  assumes "deref w r = Some (Environment path exe v None)"
  shows "get_sys_path h w r = Some (subprocess_sys_path h exe,
      w\<lparr>spawned := spawned w @ [SysPathQuery exe],
        heap := (heap w)[r := Environment path exe v (Some (subprocess_sys_path h exe))]\<rparr>)"
  using assms by (simp add: get_sys_path_def Let_def)

lemma deref_update:
  "deref (w\<lparr>spawned := es, heap := (heap w)[r := obj]\<rparr>) r'
     = (if r' = r \<and> r < length (heap w) then Some obj else deref w r')"
  by (auto simp: deref_def)

lemma deref_SomeD: "deref w r = Some obj \<Longrightarrow> r < length (heap w)"
  by (auto simp: deref_def split: if_splits)

lemma run_accesses_unset:
  assumes "deref w r = Some (Environment path exe v None)"
  shows "run_accesses h w r as = Some (map (observe v (subprocess_sys_path h exe)) as,
      if GetSysPath \<in> set as
      then w\<lparr>spawned := spawned w @ [SysPathQuery exe],
             heap := (heap w)[r := Environment path exe v (Some (subprocess_sys_path h exe))]\<rparr>
      else w)"
proof (induction as)
  case Nil
  show ?case by simp
next
  case (Cons a as)
  show ?case
  proof (cases a)
    case ReadVersion
    with Cons show ?thesis by (simp add: read_version_info_Environment [OF assms])
  next
    case GetSysPath
    let ?p = "subprocess_sys_path h exe"
    let ?w1 = "w\<lparr>spawned := spawned w @ [SysPathQuery exe],
             heap := (heap w)[r := Environment path exe v (Some ?p)]\<rparr>"
    have "deref ?w1 r = Some (Environment path exe v (Some ?p))"
      using deref_SomeD [OF assms] by (simp add: deref_update)
    then have "run_accesses h ?w1 r as = Some (map (observe v ?p) as, ?w1)"
      by (rule run_accesses_cached)
    with GetSysPath show ?thesis by (simp add: get_sys_path_unset [OF assms])
  qed
qed

lemma accesses_of_an_Environment:
  assumes "deref w r = Some (Environment path exe v memo)"
  shows "\<exists>p w'. run_accesses h w r as = Some (map (observe v p) as, w') \<and>
      spawned w' = spawned w
        @ (if memo = None \<and> GetSysPath \<in> set as then [SysPathQuery exe] else []) \<and>
      deref w' r = Some (Environment path exe v (if GetSysPath \<in> set as then Some p else memo)) \<and>
      (\<forall>r'. r' \<noteq> r \<longrightarrow> deref w' r' = deref w r')"
proof (cases memo)
  case (Some p)
  with assms have d: "deref w r = Some (Environment path exe v (Some p))" by simp
  have "run_accesses h w r as = Some (map (observe v p) as, w)"
    using d by (rule run_accesses_cached)
  moreover have "spawned w = spawned w
        @ (if memo = None \<and> GetSysPath \<in> set as then [SysPathQuery exe] else [])"
    using Some by simp
  moreover have "deref w r
      = Some (Environment path exe v (if GetSysPath \<in> set as then Some p else memo))"
    using d Some by simp
  ultimately show ?thesis by blast
next
  case None
  with assms have d: "deref w r = Some (Environment path exe v None)" by simp
  let ?p = "subprocess_sys_path h exe"
  let ?w1 = "w\<lparr>spawned := spawned w @ [SysPathQuery exe],
             heap := (heap w)[r := Environment path exe v (Some ?p)]\<rparr>"
  let ?w' = "if GetSysPath \<in> set as then ?w1 else w"
  have 1: "run_accesses h w r as = Some (map (observe v ?p) as, ?w')"
    using d by (rule run_accesses_unset)
  have 2: "spawned ?w' = spawned w
        @ (if memo = None \<and> GetSysPath \<in> set as then [SysPathQuery exe] else [])"
    using None by simp
  have 3: "deref ?w' r
      = Some (Environment path exe v (if GetSysPath \<in> set as then Some ?p else memo))"
    using d None deref_SomeD [OF d] by (simp add: deref_update)
  have 4: "\<forall>r'. r' \<noteq> r \<longrightarrow> deref ?w' r' = deref w r'"
    by (simp add: deref_update)
  from 1 2 3 4 show ?thesis by blast
qed

text \<open>
  C8. An \<open>Environment\<close> comes out of its constructor with its version set by one probe
  and its search-path cell unset. From then on, for any sequence of reads of
  \<open>version_info\<close> and calls of \<open>get_sys_path\<close> on it, in any world in which it exists:
  no probe is run; the worker is asked for the search path once if the cell was unset and
  the sequence calls \<open>get_sys_path\<close>, and not at all otherwise; every read returns the
  same version and every call the same path; the cell stays set; no other object changes.
\<close>

theorem accesses_query_at_most_once:
  "(\<forall>r w1. new_Environment h w path exe = (Inr r, w1) \<longrightarrow>
      (\<exists>v. deref w1 r = Some (Environment path exe v None)) \<and>
      spawned w1 = spawned w @ [Popen [exe, ''--version'']]) \<and>
   (\<forall>r v memo. deref w r = Some (Environment path exe v memo) \<longrightarrow>
      (\<exists>p w'. run_accesses h w r as = Some (map (observe v p) as, w') \<and>
         spawned w' = spawned w
           @ (if memo = None \<and> GetSysPath \<in> set as then [SysPathQuery exe] else []) \<and>
         deref w' r
           = Some (Environment path exe v (if GetSysPath \<in> set as then Some p else memo)) \<and>
         (\<forall>r'. r' \<noteq> r \<longrightarrow> deref w' r' = deref w r')))"
proof (intro conjI allI impI)
  fix r w1 assume new: "new_Environment h w path exe = (Inr r, w1)"
  then show "\<exists>v. deref w1 r = Some (Environment path exe v None)"
    by (auto simp: new_Environment_eq deref_alloc heap_log_probe deref_def split: sum.splits)
  from new have "w1 = snd (new_Environment h w path exe)" by simp
  then show "spawned w1 = spawned w @ [Popen [exe, ''--version'']]"
    by (simp only: new_Environment_spawned)
next
  fix r v memo assume "deref w r = Some (Environment path exe v memo)"
  then show "\<exists>p w'. run_accesses h w r as = Some (map (observe v p) as, w') \<and>
         spawned w' = spawned w
           @ (if memo = None \<and> GetSysPath \<in> set as then [SysPathQuery exe] else []) \<and>
         deref w' r
           = Some (Environment path exe v (if GetSysPath \<in> set as then Some p else memo)) \<and>
         (\<forall>r'. r' \<noteq> r \<longrightarrow> deref w' r' = deref w r')"
    by (rule accesses_of_an_Environment)
qed

theorem accesses_query_at_most_once_witness:
  "\<exists>p w'. run_accesses demo_host
       \<lparr>spawned = [Popen [''/usr/bin/python3.6'', ''--version'']],
        heap = [Environment ''/usr'' ''/usr/bin/python3.6'' (VersionInfo 3 6 5) None]\<rparr> 0
       [GetSysPath, ReadVersion, GetSysPath]
     = Some ([SysPath p, Version (VersionInfo 3 6 5), SysPath p], w') \<and>
     spawned w' = [Popen [''/usr/bin/python3.6'', ''--version''],
                   SysPathQuery ''/usr/bin/python3.6'']"
proof -
  let ?w = "\<lparr>spawned = [Popen [''/usr/bin/python3.6'', ''--version'']],
        heap = [Environment ''/usr'' ''/usr/bin/python3.6'' (VersionInfo 3 6 5) None]\<rparr>"
  have d: "deref ?w 0 = Some (Environment ''/usr'' ''/usr/bin/python3.6'' (VersionInfo 3 6 5) None)"
    by (simp add: deref_def)
  from accesses_query_at_most_once
    [of demo_host ?w "''/usr''" "''/usr/bin/python3.6''" "[GetSysPath, ReadVersion, GetSysPath]"] d
  obtain p w' where
    "run_accesses demo_host ?w 0 [GetSysPath, ReadVersion, GetSysPath]
       = Some (map (observe (VersionInfo 3 6 5) p) [GetSysPath, ReadVersion, GetSysPath], w')"
    "spawned w' = spawned ?w
       @ (if (None :: string list option) = None
            \<and> GetSysPath \<in> set [GetSysPath, ReadVersion, GetSysPath]
          then [SysPathQuery ''/usr/bin/python3.6''] else [])"
    by blast
  then have "run_accesses demo_host ?w 0 [GetSysPath, ReadVersion, GetSysPath]
       = Some ([SysPath p, Version (VersionInfo 3 6 5), SysPath p], w') \<and>
     spawned w' = [Popen [''/usr/bin/python3.6'', ''--version''],
                   SysPathQuery ''/usr/bin/python3.6'']"
    by simp
  then show ?thesis by blast
qed

end
